theory Spec2Isabelle
  imports Complex_Main
begin

section \<open>Python strings\<close>

text \<open>
  A Python \<open>str\<close> is modelled as a \<open>string\<close>, one \<open>char\<close> per code point, for
  code points below 256.  The operations below are the ones \<open>ppt.py\<close> applies:
  \<open>sub in s\<close>, \<open>s.startswith(p)\<close>, \<open>s.lower()\<close>, \<open>s.strip()\<close>, \<open>s.split(sep)\<close>,
  \<open>sep.join(xs)\<close> and the decimal rendering of an integer inside an f-string.
\<close>

fun startswith :: "string \<Rightarrow> string \<Rightarrow> bool" where
  "startswith [] s = True"
| "startswith (p # ps) [] = False"
| "startswith (p # ps) (c # cs) = (p = c \<and> startswith ps cs)"

text \<open>\<open>py_in sub s\<close> is Python's \<open>sub in s\<close>: \<open>sub\<close> occurs in \<open>s\<close> as a substring.\<close>

fun py_in :: "string \<Rightarrow> string \<Rightarrow> bool" where
  "py_in sub [] = (sub = [])"
| "py_in sub (c # cs) = (startswith sub (c # cs) \<or> py_in sub cs)"

definition char_lower :: "char \<Rightarrow> char" where
  "char_lower c =
     (let n = (of_char c :: nat)
      in if (65 \<le> n \<and> n \<le> 90) \<or> (192 \<le> n \<and> n \<le> 222 \<and> n \<noteq> 215)
         then char_of (n + 32) else c)"

definition lower :: "string \<Rightarrow> string" where
  "lower s = map char_lower s"

text \<open>The characters \<open>str.strip()\<close> removes: Python's whitespace below code point 256.\<close>

definition is_space :: "char \<Rightarrow> bool" where
  "is_space c =
     (let n = (of_char c :: nat)
      in (9 \<le> n \<and> n \<le> 13) \<or> (28 \<le> n \<and> n \<le> 32) \<or> n = 133 \<or> n = 160)"

definition strip :: "string \<Rightarrow> string" where
  "strip s = rev (dropWhile is_space (rev (dropWhile is_space s)))"

text \<open>
  \<open>split sep s\<close> is \<open>s.split(sep)\<close> for a non-empty separator: the pieces between the
  non-overlapping occurrences of \<open>sep\<close>, found from the left.  \<open>cur\<close> holds the piece
  being read, reversed.  (The program only splits on two non-empty literals; Python raises
  on an empty separator.)
\<close>

function split_from :: "string \<Rightarrow> string \<Rightarrow> string \<Rightarrow> string list" where
  "split_from sep cur [] = [rev cur]"
| "split_from sep cur (c # cs) =
     (if sep \<noteq> [] \<and> startswith sep (c # cs)
      then rev cur # split_from sep [] (drop (length sep) (c # cs))
      else split_from sep (c # cur) cs)"
  by pat_completeness auto
termination
  by (relation "measure (\<lambda>(sep, cur, s). length s)") (auto simp: neq_Nil_conv)

definition split :: "string \<Rightarrow> string \<Rightarrow> string list" where
  "split sep s = split_from sep [] s"

fun join :: "string \<Rightarrow> string list \<Rightarrow> string" where
  "join sep [] = []"
| "join sep [x] = x"
| "join sep (x # y # ys) = x @ sep @ join sep (y # ys)"

definition digit_char :: "nat \<Rightarrow> char" where
  "digit_char d = char_of (48 + d)"

fun str_of_nat :: "nat \<Rightarrow> string" where
  "str_of_nat n = (if n < 10 then [digit_char n] else str_of_nat (n div 10) @ [digit_char (n mod 10)])"

declare str_of_nat.simps [simp del]

definition str_of_int :: "int \<Rightarrow> string" where
  "str_of_int i = (if i < 0 then CHR ''-'' # str_of_nat (nat (- i)) else str_of_nat (nat i))"

section \<open>Exceptions, events and the environment\<close>

text \<open>
  An exception (an instance of Python's \<open>Exception\<close>) is its class name and its message;
  \<open>str(e)\<close> is the message.  Every \<open>except Exception\<close> of the source catches each of them.
\<close>

datatype exn = Exn string string

fun str_exn :: "exn \<Rightarrow> string" where
  "str_exn (Exn cls msg) = msg"

text \<open>
  The two prompts the program sends to the text-generation model.  Each is an f-string
  whose only variable parts are the arguments kept here.
\<close>

datatype prompt = OutlinePrompt string int | ImagePrompt string

text \<open>
  Values decoded from JSON, as Python objects: \<open>None\<close>, \<open>bool\<close>, \<open>int\<close>, \<open>str\<close>,
  \<open>list\<close> and \<open>dict\<close> (keys in insertion order).  Numbers with a fraction or an exponent
  (Python floats) are not modelled.
\<close>

datatype json =
    JNull
  | JBool bool
  | JInt int
  | JStr string
  | JArr "json list"
  | JObj "(string \<times> json) list"

text \<open>The three layout routines, as called: the arguments are the ones passed.\<close>

datatype layout_call =
    CreateTitleSlide json string
  | CreateContentSlide json json bool
  | CreateImageSlide json json string

text \<open>
  What a run does to the outside, in order: \<open>time.sleep\<close>, the messages shown with
  \<open>st.info\<close>, \<open>st.warning\<close>, \<open>st.error\<close> and \<open>st.exception\<close>, the requests to the
  model and to the photo service, the calls of the layout routines, and the files written.
  \<open>StInfoWait w\<close> is the message \<open>Rate limiting: Waiting {w:.1f}s before next API call...\<close>,
  with the number kept unformatted.  Writes to the progress bar and the status line are
  display only and left out.
\<close>

datatype event =
    Sleep real
  | StInfo string
  | StInfoWait real
  | StWarning string
  | StError string
  | StException exn
  | GenaiConfigure string
  | GenerateContent prompt
  | PexelsSearch string string
  | ImageGet string
  | Call layout_call
  | AddPicture string
  | OsRemove string
  | Save string
  | OpenFile string
  | DownloadButton string
  | Balloons

text \<open>
  The environment: everything the program reads from outside, as fixed answers.
  \<^item> \<open>clock k\<close>: the \<open>k\<close>-th reading of \<open>time.time()\<close>, in seconds (floating-point rounding
    of the two subtractions in \<open>_wait_for_rate_limit\<close> is not modelled);
  \<^item> \<open>gemini k\<close>: the \<open>k\<close>-th call of \<open>model.generate_content(prompt)\<close> followed by
    \<open>response.text\<close>: the exception raised, or the text;
  \<^item> \<open>json_loads t\<close>: \<open>json.loads(t)\<close>: the list it returns, or the exception it raises
    (the program calls it only on a text that starts with a bracket, where whatever it
    returns is a list);
  \<^item> \<open>pexels_search k\<close>: the \<open>k\<close>-th photo search (request, status check, decoding, reading
    the \<open>photos\<close> list and the first photo's address): the exception raised, or the
    addresses found;
  \<^item> \<open>fetch_image k\<close>: downloading and writing the image of the \<open>k\<close>-th search: the
    exception raised, if any;
  \<^item> \<open>path_exists k\<close>, \<open>add_picture k\<close>, \<open>os_remove k\<close>: \<open>os.path.exists\<close>,
    \<open>shapes.add_picture\<close> and \<open>os.remove\<close> on that image;
  \<^item> \<open>save_file\<close>, \<open>open_file\<close>: \<open>presentation.save\<close> and \<open>open(output_file, "rb")\<close>.
\<close>

record env =
  clock :: "nat \<Rightarrow> real"
  gemini :: "nat \<Rightarrow> exn + string"
  json_loads :: "string \<Rightarrow> exn + json list"
  pexels_search :: "nat \<Rightarrow> exn + string list"
  fetch_image :: "nat \<Rightarrow> exn option"
  path_exists :: "nat \<Rightarrow> bool"
  add_picture :: "nat \<Rightarrow> exn option"
  os_remove :: "nat \<Rightarrow> exn option"
  save_file :: "string \<Rightarrow> exn option"
  open_file :: "string \<Rightarrow> exn option"

text \<open>
  A slide of the presentation: the index of its layout in the default template, the text
  of its title, the text of its body (subtitle, content placeholder or content box) and
  whether a picture was added.  Fonts, colours, sizes and positions are left out.
\<close>

record slide =
  layout :: nat
  title_text :: string
  body_text :: string
  has_picture :: bool

text \<open>
  The state: the fields of the \<open>PPTGenerator\<close> object (\<open>api_key\<close> \<dots> \<open>slides\<close>, the last
  being the slides of \<open>self.presentation\<close>), how many answers of each kind the environment
  has given so far, and the events so far.
\<close>

record state =
  api_key :: string
  pexel_key :: string
  last_api_call :: real
  min_delay :: real
  api_call_count :: nat
  slides :: "slide list"
  ticks :: nat
  gen_calls :: nat
  downloads :: nat
  trace :: "event list"

definition emit :: "event list \<Rightarrow> state \<Rightarrow> state" where
  "emit evs s = s\<lparr>trace := trace s @ evs\<rparr>"

section \<open>Rate limiting and retries\<close>

definition wait_for_rate_limit :: "env \<Rightarrow> state \<Rightarrow> state" where
  "wait_for_rate_limit e s =
     (let current_time = clock e (ticks s);
          s1 = s\<lparr>ticks := ticks s + 1\<rparr>;
          time_since_last_call = current_time - last_api_call s1;
          s2 = (if time_since_last_call < min_delay s1
                then (let wait_time = min_delay s1 - time_since_last_call
                      in emit [StInfoWait wait_time, Sleep wait_time] s1)
                else s1);
          s3 = s2\<lparr>last_api_call := clock e (ticks s2), ticks := ticks s2 + 1\<rparr>
      in s3\<lparr>api_call_count := api_call_count s3 + 1\<rparr>)"

definition is_quota :: "string \<Rightarrow> bool" where
  "is_quota error_msg = (py_in ''429'' error_msg \<or> py_in ''quota'' (lower error_msg))"

definition is_503 :: "string \<Rightarrow> bool" where
  "is_503 error_msg = py_in ''503'' error_msg"

text \<open>
  \<open>_retry_api_call\<close>: the loop \<open>for attempt in range(max_retries)\<close>, from \<open>attempt\<close> on.
  \<open>func\<close> is the wrapped callable: it changes the state and raises or returns.  The
  result is \<open>Inr (Some r)\<close> for \<open>return func(...)\<close>, \<open>Inr None\<close> for \<open>return None\<close>;
  \<open>Inl\<close> would be an exception leaving the method.
\<close>

function retry_loop ::
  "env \<Rightarrow> (state \<Rightarrow> (exn + 'a) \<times> state) \<Rightarrow> nat \<Rightarrow> nat \<Rightarrow> state \<Rightarrow> (exn + 'a option) \<times> state" where
  "retry_loop e func max_retries attempt s =
     (if attempt < max_retries then
        (case func (wait_for_rate_limit e s) of
           (Inr r, s1) \<Rightarrow> (Inr (Some r), s1)
         | (Inl ex, s1) \<Rightarrow>
             (let error_msg = str_exn ex in
              if is_quota error_msg then
                (if attempt < max_retries - 1 then
                   (let wait_time = 45 * (attempt + 1)
                    in retry_loop e func max_retries (attempt + 1)
                         (emit [StWarning (''Rate limit hit. Waiting '' @ str_of_nat wait_time
                                  @ ''s before retry '' @ str_of_nat (attempt + 2) @ ''/''
                                  @ str_of_nat max_retries @ ''...''),
                                Sleep (real wait_time)] s1))
                 else (Inr None, emit [StError ''Max retries reached. Skipping this API call.''] s1))
              else if is_503 error_msg then
                (if attempt < max_retries - 1 then
                   (let wait_time = 5 * (attempt + 1)
                    in retry_loop e func max_retries (attempt + 1)
                         (emit [StWarning (''Service unavailable (503). Retrying in ''
                                  @ str_of_nat wait_time @ ''s...''),
                                Sleep (real wait_time)] s1))
                 else (Inr None, emit [StError (''Service unavailable after ''
                                  @ str_of_nat max_retries @ '' attempts.'')] s1))
              else (Inr None, emit [StError (''Error: '' @ str_exn ex)] s1)))
      else (Inr None, s))"
  by pat_completeness auto
termination
  by (relation "measure (\<lambda>(e, func, max_retries, attempt, s). max_retries - attempt)") auto

declare retry_loop.simps [simp del]

definition retry_api_call ::
  "env \<Rightarrow> (state \<Rightarrow> (exn + 'a) \<times> state) \<Rightarrow> nat \<Rightarrow> state \<Rightarrow> (exn + 'a option) \<times> state" where
  "retry_api_call e func max_retries s = retry_loop e func max_retries 0 s"

text \<open>
  The closure \<open>_generate\<close> (the same in both places that define it): one request to the
  model, then \<open>response.text.strip()\<close>.
\<close>

definition generate :: "env \<Rightarrow> prompt \<Rightarrow> state \<Rightarrow> (exn + string) \<times> state" where
  "generate e p s =
     (let s1 = emit [GenerateContent p] (s\<lparr>gen_calls := gen_calls s + 1\<rparr>)
      in case gemini e (gen_calls s) of
           Inl ex \<Rightarrow> (Inl ex, s1)
         | Inr text \<Rightarrow> (Inr (strip text), s1))"

section \<open>JSON values as Python objects\<close>

text \<open>\<open>d.get(k, default)\<close> on a dict.\<close>

definition dict_get :: "(string \<times> json) list \<Rightarrow> string \<Rightarrow> json \<Rightarrow> json" where
  "dict_get d k dflt = (case map_of d k of Some v \<Rightarrow> v | None \<Rightarrow> dflt)"

text \<open>\<open>d[k] = v\<close>: a key keeps the position of its first insertion.\<close>

fun dict_set :: "string \<Rightarrow> json \<Rightarrow> (string \<times> json) list \<Rightarrow> (string \<times> json) list" where
  "dict_set k v [] = [(k, v)]"
| "dict_set k v (p # ps) = (if fst p = k then (k, v) # ps else p # dict_set k v ps)"

fun py_type_name :: "json \<Rightarrow> string" where
  "py_type_name JNull = ''NoneType''"
| "py_type_name (JBool b) = ''bool''"
| "py_type_name (JInt i) = ''int''"
| "py_type_name (JStr t) = ''str''"
| "py_type_name (JArr xs) = ''list''"
| "py_type_name (JObj d) = ''dict''"

definition hex_digit :: "nat \<Rightarrow> char" where
  "hex_digit d = (if d < 10 then char_of (48 + d) else char_of (87 + d))"

text \<open>\<open>repr\<close> of a string: the quote is the double quote only when the string has a
  single quote and no double quote; non-printable characters are escaped.\<close>

definition repr_char :: "char \<Rightarrow> char \<Rightarrow> string" where
  "repr_char q c =
     (let n = (of_char c :: nat)
      in if c = q \<or> c = CHR 0x5C then [CHR 0x5C, c]
         else if n = 9 then [CHR 0x5C, CHR ''t'']
         else if n = 10 then [CHR 0x5C, CHR ''n'']
         else if n = 13 then [CHR 0x5C, CHR ''r'']
         else if n < 32 \<or> (127 \<le> n \<and> n \<le> 160) \<or> n = 173
           then [CHR 0x5C, CHR ''x'', hex_digit (n div 16), hex_digit (n mod 16)]
         else [c])"

definition repr_str :: "string \<Rightarrow> string" where
  "repr_str t =
     (let q = (if CHR 0x27 \<in> set t \<and> CHR 0x22 \<notin> set t then CHR 0x22 else CHR 0x27)
      in q # concat (map (repr_char q) t) @ [q])"

fun py_repr :: "json \<Rightarrow> string" where
  "py_repr JNull = ''None''"
| "py_repr (JBool b) = (if b then ''True'' else ''False'')"
| "py_repr (JInt i) = str_of_int i"
| "py_repr (JStr t) = repr_str t"
| "py_repr (JArr xs) = ''['' @ join '', '' (map py_repr xs) @ '']''"
| "py_repr (JObj d) =
     ''{'' @ join '', '' (map (\<lambda>kv. repr_str (fst kv) @ '': '' @ py_repr (snd kv)) d) @ ''}''"

text \<open>\<open>str(v)\<close>.\<close>

definition py_str :: "json \<Rightarrow> string" where
  "py_str v = (case v of JStr t \<Rightarrow> t | _ \<Rightarrow> py_repr v)"

definition newline :: string where
  "newline = [CHR 0x0A]"

text \<open>
  The text both content layouts put on the slide:
  \<open>'\n'.join(str(item) for item in content)\<close> for a list, \<open>str(content)\<close> otherwise.
\<close>

definition content_text :: "json \<Rightarrow> string" where
  "content_text content =
     (case content of JArr items \<Rightarrow> join newline (map py_str items) | _ \<Rightarrow> py_str content)"

text \<open>\<open>sep.join(items)\<close> on a list of objects: the first item that is not a \<open>str\<close>
  raises \<open>TypeError\<close>.\<close>

fun join_strs :: "nat \<Rightarrow> json list \<Rightarrow> exn + string list" where
  "join_strs i [] = Inr []"
| "join_strs i (JStr t # xs) =
     (case join_strs (i + 1) xs of Inl ex \<Rightarrow> Inl ex | Inr ts \<Rightarrow> Inr (t # ts))"
| "join_strs i (v # xs) =
     Inl (Exn ''TypeError'' (''sequence item '' @ str_of_nat i @ '': expected str instance, ''
            @ py_type_name v @ '' found''))"

text \<open>
  The string \<open>generate_ppt\<close> builds for an image record:
  \<open>'\n'.join(content) if isinstance(content, list) else str(content)\<close>.
\<close>

definition content_str :: "json \<Rightarrow> exn + string" where
  "content_str content =
     (case content of
        JArr items \<Rightarrow> (case join_strs 0 items of Inl ex \<Rightarrow> Inl ex | Inr ts \<Rightarrow> Inr (join newline ts))
      | _ \<Rightarrow> Inr (py_str content))"

section \<open>The outline\<close>

definition get_fallback_content :: "string \<Rightarrow> json list" where
  "get_fallback_content topic =
     [JObj [(''title'', JStr topic), (''content'', JStr ''Introduction and Overview''),
            (''slide_type'', JStr ''title'')],
      JObj [(''title'', JStr ''Background''), (''content'', JStr ''Key background information''),
            (''slide_type'', JStr ''content'')],
      JObj [(''title'', JStr ''Main Points''), (''content'', JStr ''Important details and examples''),
            (''slide_type'', JStr ''content'')],
      JObj [(''title'', JStr ''Analysis''), (''content'', JStr ''Critical analysis and insights''),
            (''slide_type'', JStr ''content'')],
      JObj [(''title'', JStr ''Future Outlook''), (''content'', JStr ''Trends and predictions''),
            (''slide_type'', JStr ''content'')],
      JObj [(''title'', JStr ''Conclusion''), (''content'', JStr ''Summary and takeaways''),
            (''slide_type'', JStr ''conclusion'')]]"

definition index_error :: exn where
  "index_error = Exn ''IndexError'' ''list index out of range''"

text \<open>
  Lines 100 to 103 of \<open>generate_content_outlines\<close>: the text between a \<open>```json\<close> fence and
  the next fence, else the text after the first fence up to the second, else the text as
  it is.  An index past the pieces of a split raises \<open>IndexError\<close>.
\<close>

definition strip_code_fence :: "string \<Rightarrow> exn + string" where
  "strip_code_fence content =
     (if py_in ''```json'' content then
        (case split ''```json'' content of
           _ # after # _ \<Rightarrow>
             (case split ''```'' after of
                inner # _ \<Rightarrow> Inr (strip inner)
              | [] \<Rightarrow> Inl index_error)
         | _ \<Rightarrow> Inl index_error)
      else if py_in ''```'' content then
        (case split ''```'' content of
           _ # inner # _ \<Rightarrow> Inr (strip inner)
         | _ \<Rightarrow> Inl index_error)
      else Inr content)"

definition generate_content_outlines :: "env \<Rightarrow> string \<Rightarrow> int \<Rightarrow> state \<Rightarrow> json list \<times> state" where
  "generate_content_outlines e topic num_slides s =
     (let handler = (\<lambda>ex s'. (get_fallback_content topic,
                       emit [StError (''Error generating content: '' @ str_exn ex)] s'))
      in case retry_api_call e (generate e (OutlinePrompt topic num_slides)) 3 s of
           (Inl ex, s1) \<Rightarrow> handler ex s1
         | (Inr None, s1) \<Rightarrow>
             handler (Exn ''ValueError'' ''Failed to generate content after retries'') s1
         | (Inr (Some content), s1) \<Rightarrow>
             (case strip_code_fence content of
                Inl ex \<Rightarrow> handler ex s1
              | Inr content' \<Rightarrow>
                  if \<not> startswith ''['' content' then
                    (get_fallback_content topic,
                     emit [StWarning ''Gemini did not return JSON. Using fallback content.''] s1)
                  else (case json_loads e content' of
                          Inl ex \<Rightarrow> handler ex s1
                        | Inr outline \<Rightarrow> (outline, s1))))"

section \<open>Images\<close>

definition keyword_map :: "(string \<times> string) list" where
  "keyword_map =
     [(''introduction'', ''professional business presentation''),
      (''conclusion'', ''success celebration team''),
      (''future'', ''futuristic technology innovation''),
      (''challenge'', ''business strategy planning''),
      (''benefit'', ''growth success chart''),
      (''process'', ''workflow diagram business''),
      (''team'', ''diverse team collaboration''),
      (''ai'', ''artificial intelligence technology''),
      (''movie'', ''film production cinema''),
      (''production'', ''movie set film making''),
      (''technology'', ''modern technology innovation'')]"

definition generative_image_description :: "env \<Rightarrow> string \<Rightarrow> state \<Rightarrow> string \<times> state" where
  "generative_image_description e slide_content s =
     (let content_lower = lower slide_content
      in case find (\<lambda>kv. py_in (fst kv) content_lower) keyword_map of
           Some (keyword, image_desc) \<Rightarrow>
             (image_desc, emit [StInfo (''Using cached image description: '' @ image_desc)] s)
         | None \<Rightarrow>
             (case retry_api_call e (generate e (ImagePrompt slide_content)) 3 s of
                (Inl ex, s1) \<Rightarrow>
                  (''professional presentation visual'',
                   emit [StError (''Error generating image description: '' @ str_exn ex)] s1)
              | (Inr result, s1) \<Rightarrow>
                  (case result of
                     Some r \<Rightarrow> (if r \<noteq> [] then r else ''professional presentation visual'', s1)
                   | None \<Rightarrow> (''professional presentation visual'', s1))))"

text \<open>\<open>download_images(query)\<close>, with the default \<open>save_path\<close>.\<close>

definition download_images :: "env \<Rightarrow> string \<Rightarrow> state \<Rightarrow> string option \<times> state" where
  "download_images e query s =
     (let k = downloads s;
          s1 = emit [PexelsSearch (pexel_key s) query] (s\<lparr>downloads := k + 1\<rparr>);
          handler = (\<lambda>ex s'. (None, emit [StWarning (''Error downloading image: '' @ str_exn ex)] s'))
      in case pexels_search e k of
           Inl ex \<Rightarrow> handler ex s1
         | Inr [] \<Rightarrow> handler (Exn ''ValueError'' ''No photo found'') s1
         | Inr (image_url # _) \<Rightarrow>
             (let s2 = emit [ImageGet image_url] s1
              in case fetch_image e k of
                   Some ex \<Rightarrow> handler ex s2
                 | None \<Rightarrow> (Some ''temp_image.jpg'', s2)))"

section \<open>Layout routines\<close>

text \<open>
  Assigning to the \<open>text\<close> of a shape or text frame: python-pptx takes a \<open>str\<close> and
  raises on anything else (a \<open>TypeError\<close> stands for its error here; the class and the
  wording depend on the library's version).
\<close>

definition set_text :: "json \<Rightarrow> exn + string" where
  "set_text v =
     (case v of
        JStr t \<Rightarrow> Inr t
      | _ \<Rightarrow> Inl (Exn ''TypeError'' (''expected str, got '' @ py_type_name v)))"

definition new_slide :: "nat \<Rightarrow> slide" where
  "new_slide l = \<lparr>layout = l, title_text = [], body_text = [], has_picture = False\<rparr>"

definition create_title_slide :: "json \<Rightarrow> string \<Rightarrow> state \<Rightarrow> (exn + unit) \<times> state" where
  "create_title_slide title subtitle s =
     (let s1 = emit [Call (CreateTitleSlide title subtitle)] s;
          i = length (slides s1);
          s2 = s1\<lparr>slides := slides s1 @ [new_slide 0]\<rparr>
      in case set_text title of
           Inl ex \<Rightarrow> (Inl ex, s2)
         | Inr t \<Rightarrow>
             (let sl = (new_slide 0)\<lparr>title_text := t\<rparr>;
                  sl' = (if subtitle \<noteq> [] then sl\<lparr>body_text := subtitle\<rparr> else sl)
              in (Inr (), s2\<lparr>slides := (slides s2)[i := sl']\<rparr>)))"

text \<open>
  The part shared by the two routines that add a picture: \<open>os.path.exists\<close>,
  \<open>add_picture\<close> and \<open>os.remove\<close> on the path \<open>download_images\<close> returned, inside
  \<open>try\<close> \<dots> \<open>except Exception\<close>.  \<open>k\<close> numbers the download, \<open>i\<close> is the slide's index.
\<close>

definition place_picture :: "env \<Rightarrow> nat \<Rightarrow> nat \<Rightarrow> string option \<Rightarrow> state \<Rightarrow> state" where
  "place_picture e k i image_path s =
     (case image_path of
        None \<Rightarrow> s
      | Some path \<Rightarrow>
          if path \<noteq> [] \<and> path_exists e k then
            (case add_picture e k of
               Some ex \<Rightarrow>
                 emit [AddPicture path, StWarning (''Error adding image to slide: '' @ str_exn ex)] s
             | None \<Rightarrow>
                 (let s1 = emit [AddPicture path]
                             (s\<lparr>slides := (slides s)[i := (slides s ! i)\<lparr>has_picture := True\<rparr>]\<rparr>)
                  in case os_remove e k of
                       Some ex \<Rightarrow>
                         emit [OsRemove path,
                               StWarning (''Error adding image to slide: '' @ str_exn ex)] s1
                     | None \<Rightarrow> emit [OsRemove path] s1))
          else s)"

definition create_content_slide ::
  "env \<Rightarrow> json \<Rightarrow> json \<Rightarrow> bool \<Rightarrow> state \<Rightarrow> (exn + slide) \<times> state" where
  "create_content_slide e title content include_image s =
     (let s1 = emit [Call (CreateContentSlide title content include_image)] s;
          i = length (slides s1);
          s2 = s1\<lparr>slides := slides s1 @ [new_slide 1]\<rparr>
      in case set_text title of
           Inl ex \<Rightarrow> (Inl ex, s2)
         | Inr t \<Rightarrow>
             (let s3 = s2\<lparr>slides := (slides s2)
                         [i := (new_slide 1)\<lparr>title_text := t, body_text := content_text content\<rparr>]\<rparr>;
                  s6 = (if include_image then
                          (case generative_image_description e (content_text content) s3 of
                             (image_desc, s4) \<Rightarrow>
                               if image_desc \<noteq> [] then
                                 (case download_images e image_desc s4 of
                                    (image_path, s5) \<Rightarrow> place_picture e (downloads s4) i image_path s5)
                               else s4)
                        else s3)
              in (Inr (slides s6 ! i), s6)))"

definition create_image_slide ::
  "env \<Rightarrow> json \<Rightarrow> json \<Rightarrow> string \<Rightarrow> state \<Rightarrow> (exn + slide) \<times> state" where
  "create_image_slide e title content image_query s =
     (let s1 = emit [Call (CreateImageSlide title content image_query)] s;
          i = length (slides s1);
          s2 = s1\<lparr>slides := slides s1 @ [new_slide 8]\<rparr>
      in case set_text title of
           Inl ex \<Rightarrow> (Inl ex, s2)
         | Inr t \<Rightarrow>
             (let s3 = s2\<lparr>slides := (slides s2)
                         [i := (new_slide 8)\<lparr>title_text := t, body_text := content_text content\<rparr>]\<rparr>
              in case download_images e image_query s3 of
                   (image_path, s4) \<Rightarrow>
                     (let s5 = place_picture e (downloads s3) i image_path s4
                      in (Inr (slides s5 ! i), s5))))"

section \<open>Building the presentation\<close>

definition attribute_error :: "json \<Rightarrow> exn" where
  "attribute_error v =
     Exn ''AttributeError''
       ([CHR 0x27] @ py_type_name v @ [CHR 0x27] @ '' object has no attribute ''
        @ [CHR 0x27] @ ''get'' @ [CHR 0x27])"

text \<open>The body of the loop of \<open>generate_ppt\<close>, for the record \<open>slide_data\<close> at index \<open>i\<close>.\<close>

definition slide_step :: "env \<Rightarrow> string \<Rightarrow> nat \<Rightarrow> json \<Rightarrow> state \<Rightarrow> (exn + unit) \<times> state" where
  "slide_step e author i slide_data s =
     (case slide_data of
        JObj d \<Rightarrow>
          (let title = dict_get d ''title'' (JStr (''Slide '' @ str_of_nat (i + 1)));
               content = dict_get d ''content'' (JStr []);
               slide_type = dict_get d ''slide_type'' (JStr ''content'')
           in if i = 0 \<or> slide_type = JStr ''title'' then
                create_title_slide title (''Created by '' @ author) s
              else if slide_type = JStr ''content'' then
                (case create_content_slide e title content True s of
                   (Inl ex, s1) \<Rightarrow> (Inl ex, s1)
                 | (Inr sl, s1) \<Rightarrow> (Inr (), s1))
              else if slide_type = JStr ''image'' then
                (case content_str content of
                   Inl ex \<Rightarrow> (Inl ex, s)
                 | Inr cs \<Rightarrow>
                     (case generative_image_description e cs s of
                        (img_query, s1) \<Rightarrow>
                          (case create_image_slide e title content img_query s1 of
                             (Inl ex, s2) \<Rightarrow> (Inl ex, s2)
                           | (Inr sl, s2) \<Rightarrow> (Inr (), s2))))
              else
                (case create_content_slide e title content False s of
                   (Inl ex, s1) \<Rightarrow> (Inl ex, s1)
                 | (Inr sl, s1) \<Rightarrow> (Inr (), s1)))
      | _ \<Rightarrow> (Inl (attribute_error slide_data), s))"

text \<open>\<open>for i, slide_data in enumerate(content_outlines)\<close>, from index \<open>i\<close> on.\<close>

fun layout_loop :: "env \<Rightarrow> string \<Rightarrow> nat \<Rightarrow> json list \<Rightarrow> state \<Rightarrow> (exn + unit) \<times> state" where
  "layout_loop e author i [] s = (Inr (), s)"
| "layout_loop e author i (slide_data # rest) s =
     (case slide_step e author i slide_data s of
        (Inl ex, s1) \<Rightarrow> (Inl ex, s1)
      | (Inr u, s1) \<Rightarrow> layout_loop e author (i + 1) rest s1)"

text \<open>The two messages \<open>generate_ppt\<close> shows before it starts.\<close>

definition announce :: "int \<Rightarrow> state \<Rightarrow> state" where
  "announce num_slides s =
     emit [StInfo (''Total slides: '' @ str_of_int num_slides),
           StInfo (''Estimated time: ~'' @ str_of_int (num_slides * 30 div 60)
                   @ '' minutes (due to rate limits)'')] s"

definition generate_ppt ::
  "env \<Rightarrow> string \<Rightarrow> int \<Rightarrow> string \<Rightarrow> string \<Rightarrow> state \<Rightarrow> (exn + string) \<times> state" where
  "generate_ppt e topic num_slides output_file author s =
     (let s0 = announce num_slides s
      in case generate_content_outlines e topic num_slides s0 of
           (content_outlines, s1) \<Rightarrow>
             (case layout_loop e author 0 content_outlines s1 of
                (Inl ex, s2) \<Rightarrow> (Inl ex, s2)
              | (Inr u, s2) \<Rightarrow>
                  (let s3 = emit [Save output_file] s2
                   in case save_file e output_file of
                        Some ex \<Rightarrow> (Inl ex, s3)
                      | None \<Rightarrow> (Inr output_file, s3))))"

section \<open>The application\<close>

text \<open>\<open>PPTGenerator.__init__\<close>.\<close>

definition init :: "string \<Rightarrow> string \<Rightarrow> state \<Rightarrow> (exn + unit) \<times> state" where
  "init key pkey s =
     (let s1 = s\<lparr>api_key := key, pexel_key := pkey\<rparr>
      in if key = [] then (Inl (Exn ''ValueError'' ''Gemini API key is not available''), s1)
         else (Inr (), emit [GenaiConfigure key]
                 (s1\<lparr>slides := [], last_api_call := 0, min_delay := 30, api_call_count := 0\<rparr>)))"

text \<open>
  The form: the values of the widgets, and whether the button was pressed.  \<open>main\<close> is
  the part of the script under \<open>if st.button(...)\<close>; the page set-up and the drawing of
  the widgets and of the footer are left out.
\<close>

record form =
  gemini_api_key :: string
  pexel_api_key :: string
  author_name :: string
  form_topic :: string
  form_num_slides :: int
  output_filename :: string
  include_images :: bool
  button :: bool

definition main :: "env \<Rightarrow> form \<Rightarrow> state \<Rightarrow> state" where
  "main e f s =
     (let handler = (\<lambda>ex s'. emit [StError (''An error occurred: '' @ str_exn ex), StException ex] s')
      in if button f then
           (if form_topic f = [] then emit [StError ''Please enter a presentation topic!''] s
            else if gemini_api_key f = [] then
              emit [StError ''Please provide your Gemini API key in the sidebar!''] s
            else if pexel_api_key f = [] then
              emit [StError ''Please provide your Pexels API key in the sidebar!''] s
            else
              (case init (gemini_api_key f) (pexel_api_key f) s of
                 (Inl ex, s1) \<Rightarrow> handler ex s1
               | (Inr u, s1) \<Rightarrow>
                   (case generate_ppt e (form_topic f) (form_num_slides f) (output_filename f)
                           (author_name f) s1 of
                      (Inl ex, s2) \<Rightarrow> handler ex s2
                    | (Inr output_file, s2) \<Rightarrow>
                        (let s3 = emit [OpenFile output_file] s2
                         in case open_file e output_file of
                              Some ex \<Rightarrow> handler ex s3
                            | None \<Rightarrow> emit [DownloadButton (output_filename f), Balloons] s3))))
         else s)"

section \<open>A JSON decoder\<close>

text \<open>
  \<open>json.loads\<close> belongs to Python's library, not to this program, and the program's
  functions take it from the environment.  The sample environments below use this decoder
  for it: white space, \<open>null\<close>, \<open>true\<close>, \<open>false\<close>, integers, strings with their escapes,
  arrays and objects (a repeated key keeps its first position and its last value), read as
  \<open>json.loads\<close> reads them.  It rejects what the model of values cannot hold (numbers
  with a fraction or an exponent, \<open>NaN\<close>, \<open>Infinity\<close>, escapes of code points from 256
  on), and it gives every rejection the same message.  \<open>n\<close> bounds the number of nested
  calls; \<open>loads_list\<close> starts with more than a text of that length can use.
\<close>

definition json_ws :: "char \<Rightarrow> bool" where
  "json_ws c = (c = CHR '' '' \<or> c = CHR 0x09 \<or> c = CHR 0x0A \<or> c = CHR 0x0D)"

definition skip_ws :: "string \<Rightarrow> string" where
  "skip_ws t = dropWhile json_ws t"

definition hex_val :: "char \<Rightarrow> nat option" where
  "hex_val c =
     (let n = (of_char c :: nat)
      in if 48 \<le> n \<and> n \<le> 57 then Some (n - 48)
         else if 65 \<le> n \<and> n \<le> 70 then Some (n - 55)
         else if 97 \<le> n \<and> n \<le> 102 then Some (n - 87)
         else None)"

definition is_digit :: "char \<Rightarrow> bool" where
  "is_digit c = (let n = (of_char c :: nat) in 48 \<le> n \<and> n \<le> 57)"

fun scan_string :: "string \<Rightarrow> (string \<times> string) option" where
  "scan_string [] = None"
| "scan_string (c # cs) =
     (if c = CHR 0x22 then Some ([], cs)
      else if c = CHR 0x5C then
        (case cs of
           [] \<Rightarrow> None
         | d # ds \<Rightarrow>
             if d = CHR ''u'' then
               (case ds of
                  h1 # h2 # h3 # h4 # r \<Rightarrow>
                    (case (hex_val h1, hex_val h2, hex_val h3, hex_val h4) of
                       (Some a, Some b, Some x, Some y) \<Rightarrow>
                         if a = 0 \<and> b = 0 then
                           (case scan_string r of
                              None \<Rightarrow> None
                            | Some (t, r') \<Rightarrow> Some (char_of (16 * x + y) # t, r'))
                         else None
                     | _ \<Rightarrow> None)
                | _ \<Rightarrow> None)
             else
               (case map_of [(CHR 0x22, CHR 0x22), (CHR 0x5C, CHR 0x5C), (CHR ''/'', CHR ''/''),
                             (CHR ''b'', CHR 0x08), (CHR ''f'', CHR 0x0C), (CHR ''n'', CHR 0x0A),
                             (CHR ''r'', CHR 0x0D), (CHR ''t'', CHR 0x09)] d of
                  None \<Rightarrow> None
                | Some ch \<Rightarrow>
                    (case scan_string ds of
                       None \<Rightarrow> None
                     | Some (t, r') \<Rightarrow> Some (ch # t, r'))))
      else if (of_char c :: nat) < 32 then None
      else (case scan_string cs of
              None \<Rightarrow> None
            | Some (t, r') \<Rightarrow> Some (c # t, r')))"

fun digits_val :: "nat \<Rightarrow> string \<Rightarrow> nat" where
  "digits_val acc [] = acc"
| "digits_val acc (c # cs) = digits_val (10 * acc + (of_char c - 48)) cs"

definition next_is :: "char \<Rightarrow> string \<Rightarrow> bool" where
  "next_is c t = (t \<noteq> [] \<and> hd t = c)"

definition scan_int :: "string \<Rightarrow> (json \<times> string) option" where
  "scan_int t =
     (let neg = next_is CHR ''-'' t;
          u = (if neg then tl t else t);
          ds = (if next_is CHR ''0'' u then ''0'' else takeWhile is_digit u);
          r = drop (length ds) u
      in if ds = [] then None
         else if next_is CHR ''.'' r \<or> next_is CHR ''e'' r \<or> next_is CHR ''E'' r then None
         else Some (JInt ((if neg then - 1 else 1) * int (digits_val 0 ds)), r))"

fun scan_value :: "nat \<Rightarrow> string \<Rightarrow> (json \<times> string) option"
  and scan_array :: "nat \<Rightarrow> json list \<Rightarrow> string \<Rightarrow> (json \<times> string) option"
  and scan_object :: "nat \<Rightarrow> (string \<times> json) list \<Rightarrow> string \<Rightarrow> (json \<times> string) option" where
  "scan_value 0 t = None"
| "scan_value (Suc n) t =
     (if next_is CHR 0x22 t then
        (case scan_string (tl t) of None \<Rightarrow> None | Some (x, r) \<Rightarrow> Some (JStr x, r))
      else if next_is CHR ''{'' t then
        (let r = skip_ws (tl t)
         in if next_is CHR ''}'' r then Some (JObj [], tl r) else scan_object n [] r)
      else if next_is CHR ''['' t then
        (let r = skip_ws (tl t)
         in if next_is CHR '']'' r then Some (JArr [], tl r) else scan_array n [] r)
      else if startswith ''null'' t then Some (JNull, drop 4 t)
      else if startswith ''true'' t then Some (JBool True, drop 4 t)
      else if startswith ''false'' t then Some (JBool False, drop 5 t)
      else scan_int t)"
| "scan_array 0 acc t = None"
| "scan_array (Suc n) acc t =
     (case scan_value n t of
        None \<Rightarrow> None
      | Some (v, r) \<Rightarrow>
          (let r' = skip_ws r
           in if next_is CHR '']'' r' then Some (JArr (acc @ [v]), tl r')
              else if next_is CHR '','' r' then scan_array n (acc @ [v]) (skip_ws (tl r'))
              else None))"
| "scan_object 0 acc t = None"
| "scan_object (Suc n) acc t =
     (if next_is CHR 0x22 t then
        (case scan_string (tl t) of
           None \<Rightarrow> None
         | Some (k, r) \<Rightarrow>
             (let r1 = skip_ws r
              in if next_is CHR '':'' r1 then
                   (case scan_value n (skip_ws (tl r1)) of
                      None \<Rightarrow> None
                    | Some (v, r2) \<Rightarrow>
                        (let r3 = skip_ws r2
                         in if next_is CHR ''}'' r3 then Some (JObj (dict_set k v acc), tl r3)
                            else if next_is CHR '','' r3 then
                              scan_object n (dict_set k v acc) (skip_ws (tl r3))
                            else None))
                 else None))
      else None)"

definition decode_error :: exn where
  "decode_error = Exn ''JSONDecodeError'' ''Expecting value''"

definition loads_list :: "string \<Rightarrow> exn + json list" where
  "loads_list t =
     (case scan_value (2 * length t + 2) (skip_ws t) of
        Some (JArr xs, r) \<Rightarrow> (if skip_ws r = [] then Inr xs else Inl decode_error)
      | _ \<Rightarrow> Inl decode_error)"

section \<open>Notions used in the statements\<close>

text \<open>The calls of layout routines among some events, in order.\<close>

fun layout_calls :: "event list \<Rightarrow> layout_call list" where
  "layout_calls [] = []"
| "layout_calls (Call c # evs) = c # layout_calls evs"
| "layout_calls (ev # evs) = layout_calls evs"

text \<open>The layout calls made between a state and a later one.\<close>

definition new_calls :: "state \<Rightarrow> state \<Rightarrow> layout_call list" where
  "new_calls s s' = drop (length (layout_calls (trace s))) (layout_calls (trace s'))"

text \<open>
  The four ways a record is laid out: the title routine, the content routine with an
  image, the image routine, and the fallback (the content routine without an image).
\<close>

datatype routine = TitleRoutine | ContentRoutine | ImageRoutine | FallbackRoutine

fun routine_of_call :: "layout_call \<Rightarrow> routine" where
  "routine_of_call (CreateTitleSlide t sub) = TitleRoutine"
| "routine_of_call (CreateContentSlide t c include_image) =
     (if include_image then ContentRoutine else FallbackRoutine)"
| "routine_of_call (CreateImageSlide t c q) = ImageRoutine"

fun title_of_call :: "layout_call \<Rightarrow> json" where
  "title_of_call (CreateTitleSlide t sub) = t"
| "title_of_call (CreateContentSlide t c include_image) = t"
| "title_of_call (CreateImageSlide t c q) = t"

text \<open>The content a layout call passes; the title routine takes none.\<close>

fun content_of_call :: "layout_call \<Rightarrow> json option" where
  "content_of_call (CreateTitleSlide t sub) = None"
| "content_of_call (CreateContentSlide t c include_image) = Some c"
| "content_of_call (CreateImageSlide t c q) = Some c"

text \<open>The routine a \<open>slide_type\<close> tag names.\<close>

definition routine_for_tag :: "json \<Rightarrow> routine" where
  "routine_for_tag tag =
     (if tag = JStr ''title'' then TitleRoutine
      else if tag = JStr ''content'' then ContentRoutine
      else if tag = JStr ''image'' then ImageRoutine
      else FallbackRoutine)"

definition record_field :: "string \<Rightarrow> json \<Rightarrow> json option" where
  "record_field k r = (case r of JObj d \<Rightarrow> map_of d k | _ \<Rightarrow> None)"

text \<open>
  What the first claim states for a record: its title, and the routine its tag names.
  \<open>planned\<close> is what the code does: the same, but the title routine at index 0.
\<close>

definition stated :: "json \<Rightarrow> (json \<times> routine) option" where
  "stated r =
     (case (record_field ''title'' r, record_field ''slide_type'' r) of
        (Some t, Some tag) \<Rightarrow> Some (t, routine_for_tag tag)
      | _ \<Rightarrow> None)"

definition planned :: "nat \<Rightarrow> json \<Rightarrow> (json \<times> routine) option" where
  "planned i r =
     (case (record_field ''title'' r, record_field ''slide_type'' r) of
        (Some t, Some tag) \<Rightarrow> Some (t, if i = 0 then TitleRoutine else routine_for_tag tag)
      | _ \<Rightarrow> None)"

definition call_info :: "layout_call \<Rightarrow> (json \<times> routine) option" where
  "call_info c = Some (title_of_call c, routine_of_call c)"

text \<open>
  What the body of the loop does with the record at index \<open>i\<close>: the title it passes
  (the record's, or \<open>Slide i+1\<close>) and the routine it calls.
\<close>

definition step_info :: "nat \<Rightarrow> json \<Rightarrow> (json \<times> routine) option" where
  "step_info i r =
     (case r of
        JObj d \<Rightarrow>
          Some (dict_get d ''title'' (JStr (''Slide '' @ str_of_nat (i + 1))),
                if i = 0 then TitleRoutine
                else routine_for_tag (dict_get d ''slide_type'' (JStr ''content'')))
      | _ \<Rightarrow> None)"

fun is_str :: "json \<Rightarrow> bool" where
  "is_str (JStr t) = True"
| "is_str v = False"

text \<open>A content payload that \<open>'\n'.join\<close> accepts: not a list with an item that is not a string.\<close>

definition joinable :: "json \<Rightarrow> bool" where
  "joinable c = (case c of JArr items \<Rightarrow> list_all is_str items | _ \<Rightarrow> True)"

text \<open>
  A well-formed record, as the specification's data model has it: an object with a
  string \<open>title\<close>, a \<open>content\<close> that is a string or a list of strings, and a string
  \<open>slide_type\<close>.
\<close>

definition wf_record :: "json \<Rightarrow> bool" where
  "wf_record r =
     (case (record_field ''title'' r, record_field ''content'' r, record_field ''slide_type'' r) of
        (Some t, Some c, Some tag) \<Rightarrow>
          is_str t \<and> is_str tag \<and> (is_str c \<or> (case c of JArr items \<Rightarrow> list_all is_str items | _ \<Rightarrow> False))
      | _ \<Rightarrow> False)"

text \<open>
  A record that may lack keys: an object whose \<open>title\<close>, if it has one, is a string and
  whose \<open>content\<close>, if it has one, is joinable.
\<close>

definition tolerable :: "json \<Rightarrow> bool" where
  "tolerable r =
     (case r of
        JObj d \<Rightarrow>
          (case map_of d ''title'' of None \<Rightarrow> True | Some t \<Rightarrow> is_str t) \<and>
          (case map_of d ''content'' of None \<Rightarrow> True | Some c \<Rightarrow> joinable c)
      | _ \<Rightarrow> False)"


text \<open>The events of one \<open>_wait_for_rate_limit\<close>: nothing, or the message and the sleep.\<close>

definition is_wait :: "event list \<Rightarrow> bool" where
  "is_wait w = (case w of [] \<Rightarrow> True | [StInfoWait d, Sleep d'] \<Rightarrow> d = d' | _ \<Rightarrow> False)"

definition retryable :: "string \<Rightarrow> bool" where
  "retryable error_msg = (is_quota error_msg \<or> is_503 error_msg)"

text \<open>
  What \<open>_retry_api_call\<close> returned gives no outline: it returned \<open>None\<close>, or a text that,
  once the fences are cut away, does not start with a bracket or does not decode.
\<close>

definition unusable :: "env \<Rightarrow> string option \<Rightarrow> bool" where
  "unusable e r =
     (case r of
        None \<Rightarrow> True
      | Some content \<Rightarrow>
          (case strip_code_fence content of
             Inl ex \<Rightarrow> True
           | Inr content' \<Rightarrow> \<not> startswith ''['' content' \<or> isl (json_loads e content')))"

text \<open>
  The image of the \<open>k\<close>-th download does not reach the slide: the search or the download
  raises, no photo is found, the file is not there, or \<open>add_picture\<close> raises.
\<close>

definition image_fetch_fails :: "env \<Rightarrow> nat \<Rightarrow> bool" where
  "image_fetch_fails e k =
     (case pexels_search e k of
        Inl ex \<Rightarrow> True
      | Inr [] \<Rightarrow> True
      | Inr (image_url # _) \<Rightarrow>
          fetch_image e k \<noteq> None \<or> \<not> path_exists e k \<or> add_picture e k \<noteq> None)"

text \<open>
  Nothing of the presentation changed from \<open>s\<close> to \<open>s'\<close>: the slides, the number of
  downloads and the photo key are the same, and the events added hold no layout call.
\<close>

definition quiet :: "state \<Rightarrow> state \<Rightarrow> bool" where
  "quiet s s' =
     (slides s' = slides s \<and> downloads s' = downloads s \<and> pexel_key s' = pexel_key s \<and>
      (\<exists>evs. trace s' = trace s @ evs \<and> layout_calls evs = []))"

section \<open>Sample inputs\<close>

definition blank_state :: state where
  "blank_state =
     \<lparr>api_key = [], pexel_key = [], last_api_call = 0, min_delay = 0, api_call_count = 0,
      slides = [], ticks = 0, gen_calls = 0, downloads = 0, trace = []\<rparr>"

text \<open>The state right after \<open>PPTGenerator(api_key, pexel_key)\<close>.\<close>

definition fresh_state :: state where
  "fresh_state = snd (init ''g-key'' ''p-key'' blank_state)"

text \<open>
  An environment where the model answers as \<open>g\<close> says, a minute passes between two readings
  of the clock, and every other request succeeds.
\<close>

definition replying :: "(nat \<Rightarrow> exn + string) \<Rightarrow> env" where
  "replying g =
     \<lparr>clock = (\<lambda>k. 1700000000 + 60 * real k),
      gemini = g,
      json_loads = loads_list,
      pexels_search = (\<lambda>k. Inr [''https://images.pexels.com/photos/1/a.jpeg'']),
      fetch_image = (\<lambda>k. None),
      path_exists = (\<lambda>k. True),
      add_picture = (\<lambda>k. None),
      os_remove = (\<lambda>k. None),
      save_file = (\<lambda>name. None),
      open_file = (\<lambda>name. None)\<rparr>"

text \<open>An answer of the model: a fenced JSON array of two records.\<close>

definition sample_json :: string where
  "sample_json = ''[{\"title\": \"Robots\", \"content\": \"Intro\", \"slide_type\": \"content\"}, {\"title\": \"Uses\", \"content\": \"Benefits\", \"slide_type\": \"content\"}]''"

definition sample_reply :: string where
  "sample_reply = ''```json'' @ newline @ sample_json @ newline @ ''```''"

definition sample_outline :: "json list" where
  "sample_outline =
     [JObj [(''title'', JStr ''Robots''), (''content'', JStr ''Intro''), (''slide_type'', JStr ''content'')],
      JObj [(''title'', JStr ''Uses''), (''content'', JStr ''Benefits''), (''slide_type'', JStr ''content'')]]"

definition sample_env :: env where
  "sample_env = replying (\<lambda>k. Inr sample_reply)"

definition quota_error :: exn where
  "quota_error = Exn ''ResourceExhausted'' ''429 You exceeded your current quota''"

definition other_error :: exn where
  "other_error = Exn ''ValueError'' ''The response was blocked''"

text \<open>The model is over quota twice, then answers with an empty array.\<close>

definition quota_env :: env where
  "quota_env = replying (\<lambda>k. if k < 2 then Inl quota_error else Inr ''[]'')"

text \<open>Every request to the model raises \<open>ex\<close>.\<close>

definition failing_env :: "exn \<Rightarrow> env" where
  "failing_env ex = replying (\<lambda>k. Inl ex)"

text \<open>The photo service finds nothing.\<close>

definition no_photo_env :: env where
  "no_photo_env = sample_env\<lparr>pexels_search := (\<lambda>k. Inr [])\<rparr>"

text \<open>The model answers with prose.\<close>

definition prose_env :: env where
  "prose_env = replying (\<lambda>k. Inr ''Here is the outline you asked for.'')"

definition sample_form :: form where
  "sample_form =
     \<lparr>gemini_api_key = ''g-key'', pexel_api_key = ''p-key'', author_name = ''Pranab'',
      form_topic = ''Robots'', form_num_slides = 3, output_filename = ''presentation.pptx'',
      include_images = False, button = True\<rparr>"

text \<open>The state at the end of \<open>main\<close> on the sample form in the sample environment.\<close>

definition sample_final :: state where
  "sample_final =
     \<lparr>api_key = ''g-key'', pexel_key = ''p-key'', last_api_call = 1700000060, min_delay = 30,
      api_call_count = 1,
      slides = [\<lparr>layout = 0, title_text = ''Robots'', body_text = ''Created by Pranab'',
                  has_picture = False\<rparr>,
                \<lparr>layout = 1, title_text = ''Uses'', body_text = ''Benefits'', has_picture = True\<rparr>],
      ticks = 2, gen_calls = 1, downloads = 1,
      trace = [GenaiConfigure ''g-key'', StInfo ''Total slides: 3'',
               StInfo ''Estimated time: ~1 minutes (due to rate limits)'',
               GenerateContent (OutlinePrompt ''Robots'' 3),
               Call (CreateTitleSlide (JStr ''Robots'') ''Created by Pranab''),
               Call (CreateContentSlide (JStr ''Uses'') (JStr ''Benefits'') True),
               StInfo ''Using cached image description: growth success chart'',
               PexelsSearch ''p-key'' ''growth success chart'',
               ImageGet ''https://images.pexels.com/photos/1/a.jpeg'',
               AddPicture ''temp_image.jpg'', OsRemove ''temp_image.jpg'',
               Save ''presentation.pptx'', OpenFile ''presentation.pptx'',
               DownloadButton ''presentation.pptx'', Balloons]\<rparr>"

section \<open>Lemmas on the retry loop\<close>

lemma layout_calls_append [simp]: "layout_calls (a @ b) = layout_calls a @ layout_calls b"
  by (induction a rule: layout_calls.induct) auto

lemma emit_fields [simp]:
  "trace (emit evs s) = trace s @ evs"
  "slides (emit evs s) = slides s"
  "downloads (emit evs s) = downloads s"
  "pexel_key (emit evs s) = pexel_key s"
  "gen_calls (emit evs s) = gen_calls s"
  "min_delay (emit evs s) = min_delay s"
  by (simp_all add: emit_def)

lemma quiet_refl [simp]: "quiet s s"
  by (simp add: quiet_def)

lemma quiet_trans: "quiet a b \<Longrightarrow> quiet b c \<Longrightarrow> quiet a c"
  by (auto simp: quiet_def)

lemma quiet_emit: "layout_calls evs = [] \<Longrightarrow> quiet s (emit evs s)"
  by (simp add: quiet_def)

lemma quiet_wait: "quiet s (wait_for_rate_limit e s)"
  by (simp add: quiet_def wait_for_rate_limit_def Let_def emit_def)

lemma quiet_generate: "quiet s (snd (generate e p s))"
  by (simp add: quiet_def generate_def Let_def emit_def split: sum.splits)

lemma retry_loop_done: "\<not> a < n \<Longrightarrow> retry_loop e func n a s = (Inr None, s)"
  by (subst retry_loop.simps) simp

lemma retry_loop_Inr:
  "a < n \<Longrightarrow> func (wait_for_rate_limit e s) = (Inr r, s1) \<Longrightarrow>
   retry_loop e func n a s = (Inr (Some r), s1)"
  by (subst retry_loop.simps) simp

lemma retry_loop_Inl:
  assumes "a < n" "func (wait_for_rate_limit e s) = (Inl ex, s1)"
  shows "\<exists>evs. layout_calls evs = [] \<and>
           (retry_loop e func n a s = retry_loop e func n (a + 1) (emit evs s1) \<and> a < n - 1
              \<and> retryable (str_exn ex)
            \<or> retry_loop e func n a s = (Inr None, emit evs s1))"
proof -
  have u: "retry_loop e func n a s =
     (let error_msg = str_exn ex in
              if is_quota error_msg then
                (if a < n - 1 then
                   (let wait_time = 45 * (a + 1)
                    in retry_loop e func n (a + 1)
                         (emit [StWarning (''Rate limit hit. Waiting '' @ str_of_nat wait_time
                                  @ ''s before retry '' @ str_of_nat (a + 2) @ ''/''
                                  @ str_of_nat n @ ''...''),
                                Sleep (real wait_time)] s1))
                 else (Inr None, emit [StError ''Max retries reached. Skipping this API call.''] s1))
              else if is_503 error_msg then
                (if a < n - 1 then
                   (let wait_time = 5 * (a + 1)
                    in retry_loop e func n (a + 1)
                         (emit [StWarning (''Service unavailable (503). Retrying in ''
                                  @ str_of_nat wait_time @ ''s...''),
                                Sleep (real wait_time)] s1))
                 else (Inr None, emit [StError (''Service unavailable after ''
                                  @ str_of_nat n @ '' attempts.'')] s1))
              else (Inr None, emit [StError (''Error: '' @ str_exn ex)] s1))"
    using assms by (subst retry_loop.simps) simp
  consider (q1) "is_quota (str_exn ex)" "a < n - 1"
    | (q2) "is_quota (str_exn ex)" "\<not> a < n - 1"
    | (u1) "\<not> is_quota (str_exn ex)" "is_503 (str_exn ex)" "a < n - 1"
    | (u2) "\<not> is_quota (str_exn ex)" "is_503 (str_exn ex)" "\<not> a < n - 1"
    | (o) "\<not> is_quota (str_exn ex)" "\<not> is_503 (str_exn ex)"
    by blast
  then have "(retryable (str_exn ex) \<and> a < n - 1 \<and>
      (\<exists>m d. retry_loop e func n a s = retry_loop e func n (a + 1) (emit [StWarning m, Sleep d] s1)))
    \<or> (\<exists>m. retry_loop e func n a s = (Inr None, emit [StError m] s1))"
  proof cases
    case q1
    have "\<exists>m d. retry_loop e func n a s = retry_loop e func n (a + 1) (emit [StWarning m, Sleep d] s1)"
      unfolding u Let_def by (simp only: q1 if_True) (intro exI, rule refl)
    with q1 show ?thesis by (simp add: retryable_def)
  next
    case q2
    have "\<exists>m. retry_loop e func n a s = (Inr None, emit [StError m] s1)"
      unfolding u Let_def by (simp only: q2 if_True if_False) (intro exI, rule refl)
    then show ?thesis by simp
  next
    case u1
    have "\<exists>m d. retry_loop e func n a s = retry_loop e func n (a + 1) (emit [StWarning m, Sleep d] s1)"
      unfolding u Let_def by (simp only: u1 if_True if_False) (intro exI, rule refl)
    with u1 show ?thesis by (simp add: retryable_def)
  next
    case u2
    have "\<exists>m. retry_loop e func n a s = (Inr None, emit [StError m] s1)"
      unfolding u Let_def by (simp only: u2 if_True if_False) (intro exI, rule refl)
    then show ?thesis by simp
  next
    case o
    have "\<exists>m. retry_loop e func n a s = (Inr None, emit [StError m] s1)"
      unfolding u Let_def by (simp only: o if_True if_False) (intro exI, rule refl)
    then show ?thesis by simp
  qed
  then show ?thesis
  proof (elim disjE conjE exE)
    fix m d
    assume h: "retryable (str_exn ex)" "a < n - 1"
      "retry_loop e func n a s = retry_loop e func n (a + 1) (emit [StWarning m, Sleep d] s1)"
    have "layout_calls [StWarning m, Sleep d] = []" by simp
    with h show ?thesis by blast
  next
    fix m
    assume h: "retry_loop e func n a s = (Inr None, emit [StError m] s1)"
    have "layout_calls [StError m] = []" by simp
    with h show ?thesis by blast
  qed
qed

lemma quiet_retry_loop:
  assumes f: "\<And>s. quiet s (snd (func s))"
  shows "quiet s (snd (retry_loop e func n a s))"
proof (induction "n - a" arbitrary: a s)
  case 0
  then show ?case by (simp add: retry_loop_done)
next
  case (Suc k)
  then have lt: "a < n" by simp
  obtain r s1 where fs: "func (wait_for_rate_limit e s) = (r, s1)"
    by (cases "func (wait_for_rate_limit e s)")
  have q1: "quiet s s1"
    using quiet_trans [OF quiet_wait [of s e] f [of "wait_for_rate_limit e s"]] fs by simp
  show ?case
  proof (cases r)
    case (Inr v)
    with lt fs q1 show ?thesis by (simp add: retry_loop_Inr)
  next
    case (Inl ex)
    from retry_loop_Inl [of a n func e s ex s1, OF lt fs [unfolded Inl]]
    obtain evs where lc: "layout_calls evs = []"
      and alt: "retry_loop e func n a s = retry_loop e func n (a + 1) (emit evs s1) \<and> a < n - 1
                  \<and> retryable (str_exn ex)
                \<or> retry_loop e func n a s = (Inr None, emit evs s1)"
      by blast
    have q2: "quiet s (emit evs s1)"
      using q1 quiet_emit [OF lc] quiet_trans by blast
    from alt show ?thesis
    proof
      assume h: "retry_loop e func n a s = retry_loop e func n (a + 1) (emit evs s1) \<and> a < n - 1
                  \<and> retryable (str_exn ex)"
      have "k = n - (a + 1)" using Suc.hyps(2) by simp
      from Suc.hyps(1) [OF this]
      have "quiet (emit evs s1) (snd (retry_loop e func n (a + 1) (emit evs s1)))" .
      with q2 h show ?thesis using quiet_trans by fastforce
    next
      assume "retry_loop e func n a s = (Inr None, emit evs s1)"
      with q2 show ?thesis by simp
    qed
  qed
qed

lemma retry_loop_never_raises: "\<exists>r. fst (retry_loop e func n a s) = Inr r"
proof (induction "n - a" arbitrary: a s)
  case 0
  then show ?case by (simp add: retry_loop_done)
next
  case (Suc k)
  then have lt: "a < n" by simp
  obtain r s1 where fs: "func (wait_for_rate_limit e s) = (r, s1)"
    by (cases "func (wait_for_rate_limit e s)")
  show ?case
  proof (cases r)
    case (Inr v)
    with lt fs show ?thesis by (simp add: retry_loop_Inr)
  next
    case (Inl ex)
    from retry_loop_Inl [of a n func e s ex s1, OF lt fs [unfolded Inl]]
    obtain evs where
      alt: "retry_loop e func n a s = retry_loop e func n (a + 1) (emit evs s1) \<and> a < n - 1
                  \<and> retryable (str_exn ex)
                \<or> retry_loop e func n a s = (Inr None, emit evs s1)"
      by blast
    from alt show ?thesis
    proof
      assume h: "retry_loop e func n a s = retry_loop e func n (a + 1) (emit evs s1) \<and> a < n - 1
                  \<and> retryable (str_exn ex)"
      have "k = n - (a + 1)" using Suc.hyps(2) by simp
      from Suc.hyps(1) [OF this] h show ?thesis by simp
    next
      assume "retry_loop e func n a s = (Inr None, emit evs s1)"
      then show ?thesis by simp
    qed
  qed
qed

lemma wait_trace:
  "\<exists>w. is_wait w \<and> trace (wait_for_rate_limit e s) = trace s @ w"
  by (simp add: wait_for_rate_limit_def Let_def emit_def is_wait_def)

lemma wait_gen_calls [simp]: "gen_calls (wait_for_rate_limit e s) = gen_calls s"
  by (simp add: wait_for_rate_limit_def Let_def emit_def)

lemma generate_Inl:
  "gemini e (gen_calls s) = Inl ex \<Longrightarrow>
   generate e p s = (Inl ex, emit [GenerateContent p] (s\<lparr>gen_calls := gen_calls s + 1\<rparr>))"
  by (simp add: generate_def Let_def)

lemma generate_Inr:
  "gemini e (gen_calls s) = Inr t \<Longrightarrow>
   generate e p s = (Inr (strip t), emit [GenerateContent p] (s\<lparr>gen_calls := gen_calls s + 1\<rparr>))"
  by (simp add: generate_def Let_def)

lemma retry_step_retryable:
  assumes "attempt < n - 1" "func (wait_for_rate_limit e s) = (Inl ex, s1)"
    and "(is_quota (str_exn ex) \<and> b = 45) \<or> (\<not> is_quota (str_exn ex) \<and> is_503 (str_exn ex) \<and> b = 5)"
  shows "\<exists>m. retry_loop e func n attempt s
           = retry_loop e func n (attempt + 1) (emit [StWarning m, Sleep (real (b * (attempt + 1)))] s1)"
  using assms by (subst retry_loop.simps) (auto simp: Let_def)

section \<open>Claims about the retries\<close>

text \<open>
  Claim C3.  When the wrapped call raises a quota error (its message holds \<open>429\<close> or, in
  any case of letters, \<open>quota\<close>) on the first and on the second attempt and returns on the
  third, \<open>_retry_api_call\<close>, called with three attempts as everywhere in the program, returns
  that result, and it sleeps 45 seconds after the first failure and 90 seconds after the
  second.  With two 503 errors the sleeps are 5 and 10 seconds.  The only other sleeps are
  those of \<open>_wait_for_rate_limit\<close> before each attempt (\<open>w1\<close>, \<open>w2\<close>, \<open>w3\<close>).
\<close>

theorem retry_backoff_then_success:
  assumes r1: "gemini e (gen_calls s) = Inl ex1"
    and r2: "gemini e (gen_calls s + 1) = Inl ex2"
    and r3: "gemini e (gen_calls s + 2) = Inr text"
    and cls: "(is_quota (str_exn ex1) \<and> is_quota (str_exn ex2) \<and> b = 45) \<or>
              (\<not> is_quota (str_exn ex1) \<and> \<not> is_quota (str_exn ex2) \<and>
               is_503 (str_exn ex1) \<and> is_503 (str_exn ex2) \<and> b = 5)"
  shows "\<exists>s' w1 w2 w3 m1 m2.
           retry_api_call e (generate e p) 3 s = (Inr (Some (strip text)), s') \<and>
           is_wait w1 \<and> is_wait w2 \<and> is_wait w3 \<and>
           trace s' = trace s @ w1 @ [GenerateContent p, StWarning m1, Sleep (real b)]
                              @ w2 @ [GenerateContent p, StWarning m2, Sleep (real (2 * b))]
                              @ w3 @ [GenerateContent p]"
proof -
  let ?g = "generate e p"
  define a1 where "a1 = wait_for_rate_limit e s"
  obtain w1 where w1: "is_wait w1" "trace a1 = trace s @ w1"
    unfolding a1_def using wait_trace by blast
  define b1 where "b1 = emit [GenerateContent p] (a1\<lparr>gen_calls := gen_calls a1 + 1\<rparr>)"
  have g1: "?g a1 = (Inl ex1, b1)"
    unfolding b1_def by (rule generate_Inl) (simp add: a1_def r1)
  from cls have c1: "(is_quota (str_exn ex1) \<and> b = 45) \<or>
      (\<not> is_quota (str_exn ex1) \<and> is_503 (str_exn ex1) \<and> b = 5)" by blast
  from cls have c2: "(is_quota (str_exn ex2) \<and> b = 45) \<or>
      (\<not> is_quota (str_exn ex2) \<and> is_503 (str_exn ex2) \<and> b = 5)" by blast
  obtain m1 where st1: "retry_loop e ?g 3 0 s
      = retry_loop e ?g 3 (0 + 1) (emit [StWarning m1, Sleep (real (b * (0 + 1)))] b1)"
    using retry_step_retryable [of 0 3 ?g e s ex1 b1 b, OF _ g1 [unfolded a1_def] c1] by auto
  define c1s where "c1s = emit [StWarning m1, Sleep (real (b * (0 + 1)))] b1"
  define a2 where "a2 = wait_for_rate_limit e c1s"
  obtain w2 where w2: "is_wait w2" "trace a2 = trace c1s @ w2"
    unfolding a2_def using wait_trace by blast
  define b2 where "b2 = emit [GenerateContent p] (a2\<lparr>gen_calls := gen_calls a2 + 1\<rparr>)"
  have gc2: "gen_calls a2 = gen_calls s + 1"
    by (simp add: a2_def c1s_def b1_def a1_def)
  have g2: "?g a2 = (Inl ex2, b2)"
    unfolding b2_def by (rule generate_Inl) (use r2 in \<open>simp add: gc2\<close>)
  obtain m2 where st2: "retry_loop e ?g 3 1 c1s
      = retry_loop e ?g 3 (1 + 1) (emit [StWarning m2, Sleep (real (b * (1 + 1)))] b2)"
    using retry_step_retryable [of 1 3 ?g e c1s ex2 b2 b, OF _ g2 [unfolded a2_def] c2] by auto
  define c2s where "c2s = emit [StWarning m2, Sleep (real (b * (1 + 1)))] b2"
  define a3 where "a3 = wait_for_rate_limit e c2s"
  obtain w3 where w3: "is_wait w3" "trace a3 = trace c2s @ w3"
    unfolding a3_def using wait_trace by blast
  define b3 where "b3 = emit [GenerateContent p] (a3\<lparr>gen_calls := gen_calls a3 + 1\<rparr>)"
  have gc3: "gen_calls a3 = gen_calls s + 2"
    by (simp add: a3_def c2s_def b2_def gc2)
  have g3: "?g a3 = (Inr (strip text), b3)"
    unfolding b3_def by (rule generate_Inr) (use r3 in \<open>simp add: gc3\<close>)
  have st3: "retry_loop e ?g 3 2 c2s = (Inr (Some (strip text)), b3)"
    using retry_loop_Inr [of 2 3 ?g e c2s "strip text" b3, OF _ g3 [unfolded a3_def]] by simp
  have res: "retry_api_call e ?g 3 s = (Inr (Some (strip text)), b3)"
    using st1 st2 st3 by (simp add: retry_api_call_def c1s_def c2s_def eval_nat_numeral)
  have tr: "trace b3 = trace s @ w1 @ [GenerateContent p, StWarning m1, Sleep (real b)]
                              @ w2 @ [GenerateContent p, StWarning m2, Sleep (real (2 * b))]
                              @ w3 @ [GenerateContent p]"
    using w1(2) w2(2) w3(2) by (simp add: b3_def c2s_def b2_def c1s_def b1_def mult.commute)
  from res tr w1(1) w2(1) w3(1) show ?thesis by blast
qed

theorem retry_backoff_then_success_witness:
  "\<exists>s' w1 w2 w3 m1 m2.
     retry_api_call quota_env (generate quota_env (OutlinePrompt ''Robots'' 3)) 3 fresh_state
       = (Inr (Some ''[]''), s') \<and>
     is_wait w1 \<and> is_wait w2 \<and> is_wait w3 \<and>
     trace s' = trace fresh_state
        @ w1 @ [GenerateContent (OutlinePrompt ''Robots'' 3), StWarning m1, Sleep 45]
        @ w2 @ [GenerateContent (OutlinePrompt ''Robots'' 3), StWarning m2, Sleep 90]
        @ w3 @ [GenerateContent (OutlinePrompt ''Robots'' 3)]"
proof -
  have g: "gen_calls fresh_state = 0"
    by (simp add: fresh_state_def init_def blank_state_def emit_def)
  have q: "is_quota (str_exn quota_error)"
    by (simp add: is_quota_def quota_error_def)
  have st: "strip ''[]'' = ''[]''"
    by (simp add: strip_def is_space_def)
  have r1: "gemini quota_env (gen_calls fresh_state) = Inl quota_error"
    and r2: "gemini quota_env (gen_calls fresh_state + 1) = Inl quota_error"
    and r3: "gemini quota_env (gen_calls fresh_state + 2) = Inr ''[]''"
    by (simp_all add: g quota_env_def replying_def)
  from q have cls: "(is_quota (str_exn quota_error) \<and> is_quota (str_exn quota_error) \<and> (45::nat) = 45) \<or>
              (\<not> is_quota (str_exn quota_error) \<and> \<not> is_quota (str_exn quota_error) \<and>
               is_503 (str_exn quota_error) \<and> is_503 (str_exn quota_error) \<and> (45::nat) = 5)"
    by simp
  show ?thesis
    using retry_backoff_then_success [OF r1 r2 r3 cls, of "OutlinePrompt ''Robots'' 3"]
    by (simp add: st)
qed

lemma retry_loop_all_fail:
  assumes f: "\<And>s0. \<exists>ex s1. func s0 = (Inl ex, s1)"
  shows "fst (retry_loop e func n a s) = Inr None"
proof (induction "n - a" arbitrary: a s)
  case 0
  then show ?case by (simp add: retry_loop_done)
next
  case (Suc k)
  then have lt: "a < n" by simp
  from f obtain ex s1 where fs: "func (wait_for_rate_limit e s) = (Inl ex, s1)" by blast
  from retry_loop_Inl [of a n func e s ex s1, OF lt fs]
  obtain evs where
    alt: "retry_loop e func n a s = retry_loop e func n (a + 1) (emit evs s1) \<and> a < n - 1
                \<and> retryable (str_exn ex)
              \<or> retry_loop e func n a s = (Inr None, emit evs s1)"
    by blast
  from alt show ?case
  proof
    assume h: "retry_loop e func n a s = retry_loop e func n (a + 1) (emit evs s1) \<and> a < n - 1
                \<and> retryable (str_exn ex)"
    have "k = n - (a + 1)" using Suc.hyps(2) by simp
    from Suc.hyps(1) [OF this] h show ?thesis by simp
  next
    assume "retry_loop e func n a s = (Inr None, emit evs s1)"
    then show ?thesis by simp
  qed
qed

lemma retry_loop_other:
  assumes "a < n" "func (wait_for_rate_limit e s) = (Inl ex, s1)" "\<not> retryable (str_exn ex)"
  shows "retry_loop e func n a s = (Inr None, emit [StError (''Error: '' @ str_exn ex)] s1)"
  using assms by (subst retry_loop.simps) (simp add: retryable_def)

text \<open>
  Claim C4.  \<open>_retry_api_call\<close> never lets an exception out: its result is always a
  returned value.  When every attempt raises a quota or a 503 error it returns \<open>None\<close>.
  When an attempt (the loop at any index \<open>a\<close> below the maximum) raises any other
  exception, it returns \<open>None\<close> at once: nothing follows that call but the error message.
\<close>

theorem retry_api_call_never_raises:
  "(\<exists>r. fst (retry_api_call e func n s) = Inr r) \<and>
   ((\<forall>s0. \<exists>ex s1. func s0 = (Inl ex, s1) \<and> retryable (str_exn ex)) \<longrightarrow>
      fst (retry_api_call e func n s) = Inr None) \<and>
   (\<forall>a ex s1. a < n \<and> func (wait_for_rate_limit e s) = (Inl ex, s1) \<and> \<not> retryable (str_exn ex) \<longrightarrow>
      retry_loop e func n a s = (Inr None, emit [StError (''Error: '' @ str_exn ex)] s1))"
proof (intro conjI impI allI)
  show "\<exists>r. fst (retry_api_call e func n s) = Inr r"
    unfolding retry_api_call_def by (rule retry_loop_never_raises)
next
  assume "\<forall>s0. \<exists>ex s1. func s0 = (Inl ex, s1) \<and> retryable (str_exn ex)"
  then have "\<And>s0. \<exists>ex s1. func s0 = (Inl ex, s1)" by blast
  then show "fst (retry_api_call e func n s) = Inr None"
    unfolding retry_api_call_def by (rule retry_loop_all_fail)
next
  fix a ex s1
  assume "a < n \<and> func (wait_for_rate_limit e s) = (Inl ex, s1) \<and> \<not> retryable (str_exn ex)"
  then show "retry_loop e func n a s = (Inr None, emit [StError (''Error: '' @ str_exn ex)] s1)"
    using retry_loop_other by blast
qed

theorem retry_api_call_never_raises_witness:
  "fst (retry_api_call (failing_env quota_error)
          (generate (failing_env quota_error) (ImagePrompt ''Robots'')) 3 fresh_state) = Inr None \<and>
   fst (retry_loop (failing_env other_error)
          (generate (failing_env other_error) (ImagePrompt ''Robots'')) 3 0 fresh_state) = Inr None \<and>
   trace (snd (retry_loop (failing_env other_error)
          (generate (failing_env other_error) (ImagePrompt ''Robots'')) 3 0 fresh_state))
     = [GenaiConfigure ''g-key'', GenerateContent (ImagePrompt ''Robots''),
        StError ''Error: The response was blocked'']"
proof -
  let ?q = "failing_env quota_error" and ?o = "failing_env other_error"
  let ?p = "ImagePrompt ''Robots''"
  have q: "retryable (str_exn quota_error)"
    by (simp add: retryable_def is_quota_def quota_error_def)
  have o: "\<not> retryable (str_exn other_error)"
    by (simp add: retryable_def is_quota_def is_503_def other_error_def lower_def char_lower_def)
  have allq: "\<forall>s0. \<exists>ex s1. generate ?q ?p s0 = (Inl ex, s1) \<and> retryable (str_exn ex)"
    using q by (simp add: generate_def failing_env_def replying_def Let_def)
  have w: "wait_for_rate_limit ?o fresh_state
      = fresh_state\<lparr>ticks := 2, last_api_call := 1700000060, api_call_count := 1\<rparr>"
    by (simp add: wait_for_rate_limit_def failing_env_def replying_def fresh_state_def init_def
        blank_state_def emit_def Let_def)
  define s1 where "s1 = emit [GenerateContent ?p]
      (fresh_state\<lparr>ticks := 2, last_api_call := 1700000060, api_call_count := 1, gen_calls := 1\<rparr>)"
  have g: "generate ?o ?p (wait_for_rate_limit ?o fresh_state) = (Inl other_error, s1)"
    unfolding w s1_def
    by (simp add: generate_def failing_env_def replying_def Let_def fresh_state_def init_def
        blank_state_def emit_def)
  have t: "trace (emit [StError (''Error: '' @ str_exn other_error)] s1)
     = [GenaiConfigure ''g-key'', GenerateContent (ImagePrompt ''Robots''),
        StError ''Error: The response was blocked'']"
    by (simp add: s1_def fresh_state_def init_def blank_state_def emit_def other_error_def)
  from retry_api_call_never_raises [of ?q "generate ?q ?p" 3 fresh_state] allq
  have 1: "fst (retry_api_call ?q (generate ?q ?p) 3 fresh_state) = Inr None" by blast
  from retry_api_call_never_raises [of ?o "generate ?o ?p" 3 fresh_state] g o
  have 2: "retry_loop ?o (generate ?o ?p) 3 0 fresh_state
      = (Inr None, emit [StError (''Error: '' @ str_exn other_error)] s1)" by simp
  from 1 2 t show ?thesis by simp
qed







section \<open>Lemmas on the layout routines\<close>

lemma quiet_retry_api_call:
  "retry_api_call e (generate e p) n s = (r, s') \<Longrightarrow> quiet s s'"
  using quiet_retry_loop [of "generate e p" s e n 0, OF quiet_generate]
  by (simp add: retry_api_call_def)

lemma quiet_emit_after: "quiet s s1 \<Longrightarrow> layout_calls evs = [] \<Longrightarrow> quiet s (emit evs s1)"
  using quiet_emit quiet_trans by blast

lemma quiet_gid:
  "generative_image_description e c s = (d, s') \<Longrightarrow> quiet s s'"
  unfolding generative_image_description_def Let_def
  by (auto split: option.splits prod.splits sum.splits if_splits
      dest!: quiet_retry_api_call intro!: quiet_emit quiet_emit_after)

lemma quiet_announce: "quiet s (announce n s)"
  unfolding announce_def by (rule quiet_emit) simp

lemma quiet_outlines:
  "generate_content_outlines e topic n s = (ol, s') \<Longrightarrow> quiet s s'"
  unfolding generate_content_outlines_def Let_def
  by (auto split: option.splits prod.splits sum.splits if_splits
      dest!: quiet_retry_api_call intro!: quiet_emit_after)

lemma download_images_frame:
  "download_images e q s = (r, s') \<Longrightarrow>
   slides s' = slides s \<and> (\<exists>evs. trace s' = trace s @ evs \<and> layout_calls evs = [])"
  unfolding download_images_def Let_def
  by (auto simp: emit_def split: sum.splits list.splits option.splits)

lemma download_images_None:
  assumes "case pexels_search e (downloads s) of
             Inl ex \<Rightarrow> True | Inr [] \<Rightarrow> True
           | Inr (u # us) \<Rightarrow> fetch_image e (downloads s) \<noteq> None"
  shows "fst (download_images e q s) = None"
  using assms unfolding download_images_def Let_def
  by (auto split: sum.splits list.splits option.splits)

lemma place_picture_trace:
  "\<exists>evs. trace (place_picture e k i p s) = trace s @ evs \<and> layout_calls evs = []"
  unfolding place_picture_def Let_def
  by (auto simp: emit_def split: option.splits)

lemma place_picture_slides:
  "slides (place_picture e k i p s) = slides s \<or>
   slides (place_picture e k i p s) = (slides s)[i := (slides s ! i)\<lparr>has_picture := True\<rparr>]"
  unfolding place_picture_def Let_def
  by (auto simp: emit_def split: option.splits)

lemma place_picture_fails:
  "p = None \<or> \<not> path_exists e k \<or> add_picture e k \<noteq> None \<Longrightarrow>
   slides (place_picture e k i p s) = slides s"
  unfolding place_picture_def Let_def
  by (auto simp: emit_def split: option.splits)

lemma create_title_slide_trace:
  "trace (snd (create_title_slide title sub s)) = trace s @ [Call (CreateTitleSlide title sub)]"
  unfolding create_title_slide_def Let_def
  by (simp add: emit_def split: sum.splits)

lemma create_title_slide_ok:
  "\<exists>s'. create_title_slide (JStr t) sub s = (Inr (), s')"
  unfolding create_title_slide_def Let_def set_text_def by simp

text \<open>The content routine, whatever the title: one call, then no other.\<close>

lemma create_content_slide_trace:
  "\<exists>evs. trace (snd (create_content_slide e title c b s))
      = trace s @ Call (CreateContentSlide title c b) # evs \<and> layout_calls evs = []"
proof (cases "set_text title")
  case (Inl ex)
  then show ?thesis
    unfolding create_content_slide_def Let_def by (simp add: emit_def)
next
  case (Inr t)
  define s1 where "s1 = emit [Call (CreateContentSlide title c b)] s"
  define s2 where "s2 = s1\<lparr>slides := slides s1 @ [new_slide 1]\<rparr>"
  define s3 where "s3 = s2\<lparr>slides := (slides s2)
       [length (slides s1) := (new_slide 1)\<lparr>title_text := t, body_text := content_text c\<rparr>]\<rparr>"
  have t3: "trace s3 = trace s @ [Call (CreateContentSlide title c b)]"
    by (simp add: s3_def s2_def s1_def)
  show ?thesis
  proof (cases b)
    case False
    with Inr t3 show ?thesis
      unfolding create_content_slide_def Let_def s3_def s2_def s1_def by simp
  next
    case True
    obtain d s4 where g: "generative_image_description e (content_text c) s3 = (d, s4)"
      by (cases "generative_image_description e (content_text c) s3")
    from quiet_gid [OF g] obtain ev4 where
      t4: "trace s4 = trace s3 @ ev4" "layout_calls ev4 = []"
      by (auto simp: quiet_def)
    obtain p s5 where dl: "download_images e d s4 = (p, s5)"
      by (cases "download_images e d s4")
    from download_images_frame [OF dl] obtain ev5 where
      t5: "trace s5 = trace s4 @ ev5" "layout_calls ev5 = []" by blast
    obtain ev6 where
      t6: "trace (place_picture e (downloads s4) (length (slides s1)) p s5) = trace s5 @ ev6"
        "layout_calls ev6 = []"
      using place_picture_trace by blast
    have "snd (create_content_slide e title c b s)
        = (if d \<noteq> [] then place_picture e (downloads s4) (length (slides s1)) p s5 else s4)"
      using Inr True g dl
      unfolding create_content_slide_def Let_def s3_def s2_def s1_def by simp
    with t3 t4 t5 t6 show ?thesis by (cases "d = []") auto
  qed
qed

text \<open>The content routine with a string for the title: it returns the slide it added.\<close>

lemma create_content_slide_ok:
  "\<exists>sl s'. create_content_slide e (JStr t) c b s = (Inr sl, s') \<and>
     layout sl = 1 \<and> title_text sl = t \<and> body_text sl = content_text c \<and>
     slides s' = slides s @ [sl] \<and>
     (\<not> b \<or> image_fetch_fails e (downloads s) \<longrightarrow> \<not> has_picture sl)"
proof -
  define sl0 where "sl0 = (new_slide 1)\<lparr>title_text := t, body_text := content_text c\<rparr>"
  define s1 where "s1 = emit [Call (CreateContentSlide (JStr t) c b)] s"
  define s2 where "s2 = s1\<lparr>slides := slides s1 @ [new_slide 1]\<rparr>"
  define s3 where "s3 = s2\<lparr>slides := (slides s2)[length (slides s1) := sl0]\<rparr>"
  have i: "length (slides s1) = length (slides s)" by (simp add: s1_def)
  have sl3: "slides s3 = slides s @ [sl0]"
    by (simp add: s3_def s2_def s1_def)
  have d3: "downloads s3 = downloads s"
    by (simp add: s3_def s2_def s1_def)
  have f0: "layout sl0 = 1" "title_text sl0 = t" "body_text sl0 = content_text c" "\<not> has_picture sl0"
    by (simp_all add: sl0_def new_slide_def)
  show ?thesis
  proof (cases b)
    case False
    have "create_content_slide e (JStr t) c b s = (Inr sl0, s3)"
      using False unfolding create_content_slide_def Let_def set_text_def s3_def s2_def s1_def sl0_def
      by simp
    with f0 sl3 show ?thesis by simp
  next
    case True
    obtain d s4 where g: "generative_image_description e (content_text c) s3 = (d, s4)"
      by (cases "generative_image_description e (content_text c) s3")
    from quiet_gid [OF g] have q4: "slides s4 = slides s3" "downloads s4 = downloads s3"
      by (auto simp: quiet_def)
    obtain p s5 where dl: "download_images e d s4 = (p, s5)"
      by (cases "download_images e d s4")
    from download_images_frame [OF dl] have sl5: "slides s5 = slides s3" using q4 by simp
    define s6 where "s6 = (if d \<noteq> [] then place_picture e (downloads s4) (length (slides s1)) p s5 else s4)"
    have res: "create_content_slide e (JStr t) c b s = (Inr (slides s6 ! length (slides s1)), s6)"
      using True g dl
      unfolding create_content_slide_def Let_def set_text_def s6_def s3_def s2_def s1_def sl0_def
      by simp
    have alt: "slides s6 = slides s @ [sl0] \<or> slides s6 = slides s @ [sl0\<lparr>has_picture := True\<rparr>]"
      using place_picture_slides [of e "downloads s4" "length (slides s1)" p s5] q4 sl5 sl3 i
      by (auto simp: s6_def)
    have fail: "slides s6 = slides s @ [sl0]" if "image_fetch_fails e (downloads s)"
    proof (cases "d = []")
      case True
      then show ?thesis using q4 sl3 by (simp add: s6_def)
    next
      case False
      have k: "downloads s4 = downloads s" using q4 d3 by simp
      have "p = None \<or> \<not> path_exists e (downloads s4) \<or> add_picture e (downloads s4) \<noteq> None"
      proof (cases "case pexels_search e (downloads s4) of
             Inl ex \<Rightarrow> True | Inr [] \<Rightarrow> True
           | Inr (u # us) \<Rightarrow> fetch_image e (downloads s4) \<noteq> None")
        case True
        from download_images_None [OF True, of d] dl show ?thesis by simp
      next
        case False
        with that k show ?thesis
          by (auto simp: image_fetch_fails_def split: sum.splits list.splits)
      qed
      from place_picture_fails [OF this] False sl5 sl3 show ?thesis by (simp add: s6_def)
    qed
    from alt show ?thesis
    proof
      assume a: "slides s6 = slides s @ [sl0]"
      with res i f0 show ?thesis by simp
    next
      assume a: "slides s6 = slides s @ [sl0\<lparr>has_picture := True\<rparr>]"
      show ?thesis
      proof (cases "image_fetch_fails e (downloads s)")
        case True
        from fail [OF True] res i f0 show ?thesis by simp
      next
        case False
        with a res i f0 True show ?thesis by simp
      qed
    qed
  qed
qed

lemma create_image_slide_trace:
  "\<exists>evs. trace (snd (create_image_slide e title c q s))
      = trace s @ Call (CreateImageSlide title c q) # evs \<and> layout_calls evs = []"
proof (cases "set_text title")
  case (Inl ex)
  then show ?thesis
    unfolding create_image_slide_def Let_def by (simp add: emit_def)
next
  case (Inr t)
  define s1 where "s1 = emit [Call (CreateImageSlide title c q)] s"
  define s2 where "s2 = s1\<lparr>slides := slides s1 @ [new_slide 8]\<rparr>"
  define s3 where "s3 = s2\<lparr>slides := (slides s2)
       [length (slides s1) := (new_slide 8)\<lparr>title_text := t, body_text := content_text c\<rparr>]\<rparr>"
  have t3: "trace s3 = trace s @ [Call (CreateImageSlide title c q)]"
    by (simp add: s3_def s2_def s1_def)
  obtain p s4 where dl: "download_images e q s3 = (p, s4)"
    by (cases "download_images e q s3")
  from download_images_frame [OF dl] obtain ev4 where
    t4: "trace s4 = trace s3 @ ev4" "layout_calls ev4 = []" by blast
  obtain ev5 where
    t5: "trace (place_picture e (downloads s3) (length (slides s1)) p s4) = trace s4 @ ev5"
      "layout_calls ev5 = []"
    using place_picture_trace by blast
  have "snd (create_image_slide e title c q s)
      = place_picture e (downloads s3) (length (slides s1)) p s4"
    using Inr dl unfolding create_image_slide_def Let_def s3_def s2_def s1_def by simp
  with t3 t4 t5 show ?thesis by auto
qed

lemma create_image_slide_ok:
  "\<exists>sl s'. create_image_slide e (JStr t) c q s = (Inr sl, s')"
  unfolding create_image_slide_def Let_def set_text_def
  by (simp split: prod.splits)

section \<open>Lemmas on the loop of generate_ppt\<close>

lemma snd_drop_slide:
  "snd (case x of (Inl ex, s1) \<Rightarrow> (Inl ex, s1) | (Inr sl, s1) \<Rightarrow> (Inr (), s1)) = snd x"
  by (auto split: prod.splits sum.splits)

lemma content_str_joinable: "joinable c \<Longrightarrow> \<exists>cs. content_str c = Inr cs"
proof -
  have j: "list_all is_str xs \<Longrightarrow> \<exists>ts. join_strs k xs = Inr ts" for xs k
  proof (induction xs arbitrary: k)
    case Nil
    then show ?case by simp
  next
    case (Cons x xs)
    then obtain t where "x = JStr t" by (cases x) auto
    moreover from Cons obtain ts where "join_strs (k + 1) xs = Inr ts" by auto
    ultimately show ?case by simp
  qed
  assume jn: "joinable c"
  show ?thesis
  proof (cases c)
    case (JArr xs)
    with jn have "list_all is_str xs" by (simp add: joinable_def)
    from j [OF this, of 0] obtain ts where "join_strs 0 xs = Inr ts" by blast
    with JArr show ?thesis by (simp add: content_str_def)
  qed (simp_all add: content_str_def)
qed

lemma str_of_nat_1: "str_of_nat (Suc 0) = ''1''"
  by code_simp

text \<open>The body of the loop only adds events.\<close>

lemma slide_step_grows: "\<exists>evs. trace (snd (slide_step e author i r s)) = trace s @ evs"
proof (cases r)
  case (JObj d)
  define title where "title = dict_get d ''title'' (JStr (''Slide '' @ str_of_nat (i + 1)))"
  define content where "content = dict_get d ''content'' (JStr [])"
  define tag where "tag = dict_get d ''slide_type'' (JStr ''content'')"
  have u: "slide_step e author i r s =
    (if i = 0 \<or> tag = JStr ''title'' then
                create_title_slide title (''Created by '' @ author) s
              else if tag = JStr ''content'' then
                (case create_content_slide e title content True s of
                   (Inl ex, s1) \<Rightarrow> (Inl ex, s1)
                 | (Inr sl, s1) \<Rightarrow> (Inr (), s1))
              else if tag = JStr ''image'' then
                (case content_str content of
                   Inl ex \<Rightarrow> (Inl ex, s)
                 | Inr cs \<Rightarrow>
                     (case generative_image_description e cs s of
                        (img_query, s1) \<Rightarrow>
                          (case create_image_slide e title content img_query s1 of
                             (Inl ex, s2) \<Rightarrow> (Inl ex, s2)
                           | (Inr sl, s2) \<Rightarrow> (Inr (), s2))))
              else
                (case create_content_slide e title content False s of
                   (Inl ex, s1) \<Rightarrow> (Inl ex, s1)
                 | (Inr sl, s1) \<Rightarrow> (Inr (), s1)))"
    unfolding JObj slide_step_def title_def content_def tag_def Let_def by simp
  consider (t) "i = 0 \<or> tag = JStr ''title''"
    | (c) "\<not> (i = 0 \<or> tag = JStr ''title'')" "tag = JStr ''content''"
    | (im) "\<not> (i = 0 \<or> tag = JStr ''title'')" "tag \<noteq> JStr ''content''" "tag = JStr ''image''"
    | (o) "\<not> (i = 0 \<or> tag = JStr ''title'')" "tag \<noteq> JStr ''content''" "tag \<noteq> JStr ''image''"
    by blast
  then show ?thesis
  proof cases
    case t
    then show ?thesis unfolding u by (simp add: create_title_slide_trace)
  next
    case c
    then show ?thesis unfolding u
      using create_content_slide_trace [of e title content True s]
      by (auto simp: snd_drop_slide)
  next
    case im
    show ?thesis
    proof (cases "content_str content")
      case (Inl ex)
      with im show ?thesis unfolding u by simp
    next
      case (Inr cs)
      obtain q s1 where g: "generative_image_description e cs s = (q, s1)"
        by (cases "generative_image_description e cs s")
      from quiet_gid [OF g] obtain ev1 where "trace s1 = trace s @ ev1" by (auto simp: quiet_def)
      moreover obtain ev2 where
        "trace (snd (create_image_slide e title content q s1))
           = trace s1 @ Call (CreateImageSlide title content q) # ev2"
        using create_image_slide_trace by blast
      ultimately show ?thesis
        using im Inr g unfolding u by (simp add: snd_drop_slide)
    qed
  next
    case o
    then show ?thesis unfolding u
      using create_content_slide_trace [of e title content False s]
      by (auto simp: snd_drop_slide)
  qed
qed (simp_all add: slide_step_def)

lemma slide_step_first:
  "trace (snd (slide_step e author 0 (JObj d) s))
     = trace s @ [Call (CreateTitleSlide (dict_get d ''title'' (JStr ''Slide 1'')) (''Created by '' @ author))]"
  unfolding slide_step_def Let_def
  by (simp add: create_title_slide_trace str_of_nat_1)

text \<open>On a tolerable record the body of the loop succeeds, with one layout call.\<close>

lemma slide_step_ok:
  assumes "tolerable r"
  shows "\<exists>s' c. slide_step e author i r s = (Inr (), s') \<and>
           layout_calls (trace s') = layout_calls (trace s) @ [c] \<and>
           call_info c = step_info i r"
proof -
  from assms obtain d where r: "r = JObj d" by (cases r) (auto simp: tolerable_def)
  define title where "title = dict_get d ''title'' (JStr (''Slide '' @ str_of_nat (i + 1)))"
  define content where "content = dict_get d ''content'' (JStr [])"
  define tag where "tag = dict_get d ''slide_type'' (JStr ''content'')"
  from assms obtain t where t: "title = JStr t"
    unfolding r tolerable_def title_def dict_get_def
    by (cases "map_of d ''title''"; cases "the (map_of d ''title'')") auto
  from assms have jn: "joinable content"
    unfolding r tolerable_def content_def dict_get_def
    by (cases "map_of d ''content''") (auto simp: joinable_def)
  have info: "step_info i r
      = Some (title, if i = 0 then TitleRoutine else routine_for_tag tag)"
    by (simp add: step_info_def r title_def tag_def)
  have u: "slide_step e author i r s =
    (if i = 0 \<or> tag = JStr ''title'' then
                create_title_slide title (''Created by '' @ author) s
              else if tag = JStr ''content'' then
                (case create_content_slide e title content True s of
                   (Inl ex, s1) \<Rightarrow> (Inl ex, s1)
                 | (Inr sl, s1) \<Rightarrow> (Inr (), s1))
              else if tag = JStr ''image'' then
                (case content_str content of
                   Inl ex \<Rightarrow> (Inl ex, s)
                 | Inr cs \<Rightarrow>
                     (case generative_image_description e cs s of
                        (img_query, s1) \<Rightarrow>
                          (case create_image_slide e title content img_query s1 of
                             (Inl ex, s2) \<Rightarrow> (Inl ex, s2)
                           | (Inr sl, s2) \<Rightarrow> (Inr (), s2))))
              else
                (case create_content_slide e title content False s of
                   (Inl ex, s1) \<Rightarrow> (Inl ex, s1)
                 | (Inr sl, s1) \<Rightarrow> (Inr (), s1)))"
    unfolding r slide_step_def title_def content_def tag_def Let_def by simp
  consider (t) "i = 0 \<or> tag = JStr ''title''"
    | (c) "\<not> (i = 0 \<or> tag = JStr ''title'')" "tag = JStr ''content''"
    | (im) "\<not> (i = 0 \<or> tag = JStr ''title'')" "tag \<noteq> JStr ''content''" "tag = JStr ''image''"
    | (o) "\<not> (i = 0 \<or> tag = JStr ''title'')" "tag \<noteq> JStr ''content''" "tag \<noteq> JStr ''image''"
    by blast
  then show ?thesis
  proof cases
    case t
    obtain s' where ok: "create_title_slide title (''Created by '' @ author) s = (Inr (), s')"
      using create_title_slide_ok [of t] unfolding \<open>title = JStr t\<close> by blast
    have tr: "trace s' = trace s @ [Call (CreateTitleSlide title (''Created by '' @ author))]"
      using create_title_slide_trace [of title "''Created by '' @ author" s] ok by simp
    have "call_info (CreateTitleSlide title (''Created by '' @ author)) = step_info i r"
      using t by (auto simp: info call_info_def routine_for_tag_def)
    with t ok tr show ?thesis unfolding u by auto
  next
    case c
    obtain sl s' where ok: "create_content_slide e title content True s = (Inr sl, s')"
      using create_content_slide_ok [of e t content True s] unfolding \<open>title = JStr t\<close> by blast
    obtain evs where tr: "trace s' = trace s @ Call (CreateContentSlide title content True) # evs"
      "layout_calls evs = []"
      using create_content_slide_trace [of e title content True s] ok by auto
    have "call_info (CreateContentSlide title content True) = step_info i r"
      using c by (auto simp: info call_info_def routine_for_tag_def)
    with c ok tr show ?thesis unfolding u by auto
  next
    case im
    from content_str_joinable [OF jn] obtain cs where cs: "content_str content = Inr cs" by blast
    obtain q s1 where g: "generative_image_description e cs s = (q, s1)"
      by (cases "generative_image_description e cs s")
    from quiet_gid [OF g] have l1: "layout_calls (trace s1) = layout_calls (trace s)"
      by (auto simp: quiet_def)
    obtain sl s' where ok: "create_image_slide e title content q s1 = (Inr sl, s')"
      using create_image_slide_ok [of e t content q s1] unfolding \<open>title = JStr t\<close> by blast
    obtain evs where tr: "trace s' = trace s1 @ Call (CreateImageSlide title content q) # evs"
      "layout_calls evs = []"
      using create_image_slide_trace [of e title content q s1] ok by auto
    have "call_info (CreateImageSlide title content q) = step_info i r"
      using im by (auto simp: info call_info_def routine_for_tag_def)
    with im cs g ok tr l1 show ?thesis unfolding u by auto
  next
    case o
    obtain sl s' where ok: "create_content_slide e title content False s = (Inr sl, s')"
      using create_content_slide_ok [of e t content False s] unfolding \<open>title = JStr t\<close> by blast
    obtain evs where tr: "trace s' = trace s @ Call (CreateContentSlide title content False) # evs"
      "layout_calls evs = []"
      using create_content_slide_trace [of e title content False s] ok by auto
    have "call_info (CreateContentSlide title content False) = step_info i r"
      using o by (auto simp: info call_info_def routine_for_tag_def)
    with o ok tr show ?thesis unfolding u by auto
  qed
qed

lemma layout_loop_grows:
  "\<exists>evs. trace (snd (layout_loop e author i rs s)) = trace s @ evs"
proof (induction rs arbitrary: i s)
  case Nil
  then show ?case by simp
next
  case (Cons r rs)
  obtain x s1 where st: "slide_step e author i r s = (x, s1)"
    by (cases "slide_step e author i r s")
  obtain ev1 where e1: "trace s1 = trace s @ ev1"
    using slide_step_grows [of e author i r s] st by auto
  show ?case
  proof (cases x)
    case (Inl ex)
    with st e1 show ?thesis by simp
  next
    case (Inr u)
    obtain ev2 where "trace (snd (layout_loop e author (i + 1) rs s1)) = trace s1 @ ev2"
      using Cons.IH by blast
    with Inr st e1 show ?thesis by simp
  qed
qed

lemma layout_loop_ok:
  assumes "list_all tolerable rs"
  shows "\<exists>s' cs. layout_loop e author i rs s = (Inr (), s') \<and>
           layout_calls (trace s') = layout_calls (trace s) @ cs \<and>
           map call_info cs = map (\<lambda>(j, r). step_info j r) (enumerate i rs)"
  using assms
proof (induction rs arbitrary: i s)
  case Nil
  then show ?case by simp
next
  case (Cons r rs)
  then have "tolerable r" "list_all tolerable rs" by simp_all
  from slide_step_ok [OF this(1), of e author i s]
  obtain s1 c where st: "slide_step e author i r s = (Inr (), s1)"
    "layout_calls (trace s1) = layout_calls (trace s) @ [c]" "call_info c = step_info i r"
    by blast
  from Cons.IH [OF \<open>list_all tolerable rs\<close>, of "i + 1" s1]
  obtain s' cs where lp: "layout_loop e author (i + 1) rs s1 = (Inr (), s')"
    "layout_calls (trace s') = layout_calls (trace s1) @ cs"
    "map call_info cs = map (\<lambda>(j, r). step_info j r) (enumerate (i + 1) rs)"
    by blast
  have "layout_loop e author i (r # rs) s = (Inr (), s')"
    using st lp by simp
  moreover have "layout_calls (trace s') = layout_calls (trace s) @ (c # cs)"
    using st lp by simp
  moreover have "map call_info (c # cs) = map (\<lambda>(j, r). step_info j r) (enumerate i (r # rs))"
    using st lp by simp
  ultimately show ?case by blast
qed

lemma new_calls_append:
  "layout_calls (trace s') = layout_calls (trace s) @ cs \<Longrightarrow> new_calls s s' = cs"
  by (simp add: new_calls_def)

text \<open>\<open>generate_ppt\<close> on an outline of tolerable records.\<close>

lemma generate_ppt_calls:
  assumes ol: "fst (generate_content_outlines e topic n (announce n s)) = outline"
    and tol: "list_all tolerable outline"
  shows "map call_info (new_calls s (snd (generate_ppt e topic n output_file author s)))
           = map (\<lambda>(j, r). step_info j r) (enumerate 0 outline)"
proof -
  obtain s1 where g: "generate_content_outlines e topic n (announce n s) = (outline, s1)"
    using ol by (cases "generate_content_outlines e topic n (announce n s)") simp
  have "quiet s s1"
    using quiet_trans [OF quiet_announce quiet_outlines [OF g]] .
  then have l1: "layout_calls (trace s1) = layout_calls (trace s)"
    by (auto simp: quiet_def)
  from layout_loop_ok [OF tol, of e author 0 s1]
  obtain s2 cs where lp: "layout_loop e author 0 outline s1 = (Inr (), s2)"
    "layout_calls (trace s2) = layout_calls (trace s1) @ cs"
    "map call_info cs = map (\<lambda>(j, r). step_info j r) (enumerate 0 outline)"
    by blast
  have "layout_calls (trace (snd (generate_ppt e topic n output_file author s)))
      = layout_calls (trace s) @ cs"
    using g lp l1 unfolding generate_ppt_def Let_def
    by (simp split: option.splits)
  from new_calls_append [OF this] lp(3) show ?thesis by simp
qed

lemma generate_ppt_first_call:
  assumes ol: "fst (generate_content_outlines e topic n (announce n s)) = JObj d # rest"
  shows "\<exists>more. new_calls s (snd (generate_ppt e topic n output_file author s))
           = CreateTitleSlide (dict_get d ''title'' (JStr ''Slide 1'')) (''Created by '' @ author) # more"
proof -
  let ?c = "CreateTitleSlide (dict_get d ''title'' (JStr ''Slide 1'')) (''Created by '' @ author)"
  obtain s1 where g: "generate_content_outlines e topic n (announce n s) = (JObj d # rest, s1)"
    using ol by (cases "generate_content_outlines e topic n (announce n s)") simp
  have "quiet s s1"
    using quiet_trans [OF quiet_announce quiet_outlines [OF g]] .
  then have l1: "layout_calls (trace s1) = layout_calls (trace s)"
    by (auto simp: quiet_def)
  obtain x s2 where st: "slide_step e author 0 (JObj d) s1 = (x, s2)"
    by (cases "slide_step e author 0 (JObj d) s1")
  have t2: "trace s2 = trace s1 @ [Call ?c]"
    using slide_step_first [of e author d s1] st by simp
  obtain s3 where lp: "snd (layout_loop e author 0 (JObj d # rest) s1) = s3" by simp
  have "\<exists>evs. trace s3 = trace s2 @ evs"
  proof (cases x)
    case (Inl ex)
    with st lp show ?thesis by simp
  next
    case (Inr u)
    with st lp layout_loop_grows [of e author 1 rest s2] show ?thesis by simp
  qed
  then obtain evs where t3: "trace s3 = trace s1 @ Call ?c # evs" using t2 by auto
  obtain y where lp': "layout_loop e author 0 (JObj d # rest) s1 = (y, s3)"
    using lp by (cases "layout_loop e author 0 (JObj d # rest) s1") simp
  have "\<exists>evs'. trace (snd (generate_ppt e topic n output_file author s)) = trace s1 @ Call ?c # evs'"
    using g lp' t3 unfolding generate_ppt_def Let_def
    by (cases y) (auto split: option.splits)
  then obtain evs' where "trace (snd (generate_ppt e topic n output_file author s)) = trace s1 @ Call ?c # evs'"
    by blast
  then have "layout_calls (trace (snd (generate_ppt e topic n output_file author s)))
      = layout_calls (trace s) @ (?c # layout_calls evs')"
    using l1 by simp
  from new_calls_append [OF this] show ?thesis by blast
qed

lemma wf_tolerable: "wf_record r \<Longrightarrow> tolerable r"
  unfolding wf_record_def tolerable_def record_field_def joinable_def
  by (cases r) (auto split: option.splits json.splits)

lemma wf_planned: "wf_record r \<Longrightarrow> planned i r = step_info i r"
  unfolding wf_record_def planned_def step_info_def record_field_def dict_get_def
  by (cases r) (auto split: option.splits)

lemma create_title_slide_slides:
  "sub \<noteq> [] \<Longrightarrow>
   \<exists>s'. create_title_slide (JStr t) sub s = (Inr (), s') \<and>
     slides s' = slides s @ [\<lparr>layout = 0, title_text = t, body_text = sub, has_picture = False\<rparr>]"
  unfolding create_title_slide_def Let_def set_text_def new_slide_def
  by (simp add: emit_def)

lemma create_image_slide_slides:
  "\<exists>sl s'. create_image_slide e (JStr t) c q s = (Inr sl, s') \<and>
     layout sl = 8 \<and> title_text sl = t \<and> body_text sl = content_text c \<and>
     slides s' = slides s @ [sl]"
proof -
  define sl0 where "sl0 = (new_slide 8)\<lparr>title_text := t, body_text := content_text c\<rparr>"
  define s1 where "s1 = emit [Call (CreateImageSlide (JStr t) c q)] s"
  define s2 where "s2 = s1\<lparr>slides := slides s1 @ [new_slide 8]\<rparr>"
  define s3 where "s3 = s2\<lparr>slides := (slides s2)[length (slides s1) := sl0]\<rparr>"
  have i: "length (slides s1) = length (slides s)" by (simp add: s1_def)
  have sl3: "slides s3 = slides s @ [sl0]"
    by (simp add: s3_def s2_def s1_def)
  have f0: "layout sl0 = 8" "title_text sl0 = t" "body_text sl0 = content_text c"
    by (simp_all add: sl0_def new_slide_def)
  obtain p s4 where dl: "download_images e q s3 = (p, s4)"
    by (cases "download_images e q s3")
  from download_images_frame [OF dl] have sl4: "slides s4 = slides s3" by simp
  define s5 where "s5 = place_picture e (downloads s3) (length (slides s1)) p s4"
  have res: "create_image_slide e (JStr t) c q s = (Inr (slides s5 ! length (slides s1)), s5)"
    using dl
    unfolding create_image_slide_def Let_def set_text_def s5_def s3_def s2_def s1_def sl0_def
    by simp
  have alt: "slides s5 = slides s @ [sl0] \<or> slides s5 = slides s @ [sl0\<lparr>has_picture := True\<rparr>]"
    using place_picture_slides [of e "downloads s3" "length (slides s1)" p s4] sl4 sl3 i
    by (auto simp: s5_def)
  from alt show ?thesis
  proof
    assume "slides s5 = slides s @ [sl0]"
    with res i f0 show ?thesis by simp
  next
    assume "slides s5 = slides s @ [sl0\<lparr>has_picture := True\<rparr>]"
    with res i f0 show ?thesis by simp
  qed
qed

text \<open>
  What the body of the loop does with a tolerable record: the call it makes, with the
  values read from the record or their defaults, and the slide it adds.
\<close>

lemma slide_step_call:
  assumes "tolerable (JObj d)"
  shows "\<exists>s' c sl t.
      slide_step e author i (JObj d) s = (Inr (), s') \<and>
      layout_calls (trace s') = layout_calls (trace s) @ [c] \<and>
      title_of_call c = dict_get d ''title'' (JStr (''Slide '' @ str_of_nat (i + 1))) \<and>
      routine_of_call c
        = (if i = 0 then TitleRoutine
           else routine_for_tag (dict_get d ''slide_type'' (JStr ''content''))) \<and>
      (routine_of_call c = TitleRoutine \<or>
         content_of_call c = Some (dict_get d ''content'' (JStr []))) \<and>
      slides s' = slides s @ [sl] \<and>
      dict_get d ''title'' (JStr (''Slide '' @ str_of_nat (i + 1))) = JStr t \<and>
      title_text sl = t \<and>
      body_text sl
        = (if routine_of_call c = TitleRoutine then ''Created by '' @ author
           else content_text (dict_get d ''content'' (JStr [])))"
proof -
  define title where "title = dict_get d ''title'' (JStr (''Slide '' @ str_of_nat (i + 1)))"
  define content where "content = dict_get d ''content'' (JStr [])"
  define tag where "tag = dict_get d ''slide_type'' (JStr ''content'')"
  from assms obtain t where t: "title = JStr t"
    unfolding tolerable_def title_def dict_get_def
    by (cases "map_of d ''title''"; cases "the (map_of d ''title'')") auto
  from assms have jn: "joinable content"
    unfolding tolerable_def content_def dict_get_def
    by (cases "map_of d ''content''") (auto simp: joinable_def)
  have u: "slide_step e author i (JObj d) s =
    (if i = 0 \<or> tag = JStr ''title'' then
                create_title_slide title (''Created by '' @ author) s
              else if tag = JStr ''content'' then
                (case create_content_slide e title content True s of
                   (Inl ex, s1) \<Rightarrow> (Inl ex, s1)
                 | (Inr sl, s1) \<Rightarrow> (Inr (), s1))
              else if tag = JStr ''image'' then
                (case content_str content of
                   Inl ex \<Rightarrow> (Inl ex, s)
                 | Inr cs \<Rightarrow>
                     (case generative_image_description e cs s of
                        (img_query, s1) \<Rightarrow>
                          (case create_image_slide e title content img_query s1 of
                             (Inl ex, s2) \<Rightarrow> (Inl ex, s2)
                           | (Inr sl, s2) \<Rightarrow> (Inr (), s2))))
              else
                (case create_content_slide e title content False s of
                   (Inl ex, s1) \<Rightarrow> (Inl ex, s1)
                 | (Inr sl, s1) \<Rightarrow> (Inr (), s1)))"
    unfolding slide_step_def title_def content_def tag_def Let_def by simp
  let ?goal = "\<lambda>s' c sl.
      slide_step e author i (JObj d) s = (Inr (), s') \<and>
      layout_calls (trace s') = layout_calls (trace s) @ [c] \<and>
      title_of_call c = title \<and>
      routine_of_call c = (if i = 0 then TitleRoutine else routine_for_tag tag) \<and>
      (routine_of_call c = TitleRoutine \<or> content_of_call c = Some content) \<and>
      slides s' = slides s @ [sl] \<and>
      title_text sl = t \<and>
      body_text sl
        = (if routine_of_call c = TitleRoutine then ''Created by '' @ author
           else content_text content)"
  consider (t) "i = 0 \<or> tag = JStr ''title''"
    | (c) "\<not> (i = 0 \<or> tag = JStr ''title'')" "tag = JStr ''content''"
    | (im) "\<not> (i = 0 \<or> tag = JStr ''title'')" "tag \<noteq> JStr ''content''" "tag = JStr ''image''"
    | (o) "\<not> (i = 0 \<or> tag = JStr ''title'')" "tag \<noteq> JStr ''content''" "tag \<noteq> JStr ''image''"
    by blast
  then have "\<exists>s' c sl. ?goal s' c sl"
  proof cases
    case t
    let ?sub = "''Created by '' @ author"
    let ?sl = "\<lparr>layout = 0, title_text = t, body_text = ?sub, has_picture = False\<rparr>"
    have "?sub \<noteq> []" by simp
    from create_title_slide_slides [OF this, of t s]
    obtain s' where ok: "create_title_slide title ?sub s = (Inr (), s')"
      "slides s' = slides s @ [?sl]"
      unfolding \<open>title = JStr t\<close> by blast
    have tr: "trace s' = trace s @ [Call (CreateTitleSlide title ?sub)]"
      using create_title_slide_trace [of title ?sub s] ok by simp
    have "?goal s' (CreateTitleSlide title ?sub) ?sl"
      using t ok tr unfolding u by (auto simp: routine_for_tag_def)
    then show ?thesis by blast
  next
    case c
    from create_content_slide_ok [of e t content True s]
    obtain sl s' where ok: "create_content_slide e title content True s = (Inr sl, s')"
      "title_text sl = t" "body_text sl = content_text content" "slides s' = slides s @ [sl]"
      unfolding \<open>title = JStr t\<close> by blast
    obtain evs where tr: "trace s' = trace s @ Call (CreateContentSlide title content True) # evs"
      "layout_calls evs = []"
      using create_content_slide_trace [of e title content True s] ok by auto
    have "?goal s' (CreateContentSlide title content True) sl"
      using c ok tr unfolding u by (auto simp: routine_for_tag_def)
    then show ?thesis by blast
  next
    case im
    from content_str_joinable [OF jn] obtain cs where cs: "content_str content = Inr cs" by blast
    obtain q s1 where g: "generative_image_description e cs s = (q, s1)"
      by (cases "generative_image_description e cs s")
    from quiet_gid [OF g] have l1: "layout_calls (trace s1) = layout_calls (trace s)"
      "slides s1 = slides s"
      by (auto simp: quiet_def)
    from create_image_slide_slides [of e t content q s1]
    obtain sl s' where ok: "create_image_slide e title content q s1 = (Inr sl, s')"
      "title_text sl = t" "body_text sl = content_text content" "slides s' = slides s1 @ [sl]"
      unfolding \<open>title = JStr t\<close> by blast
    obtain evs where tr: "trace s' = trace s1 @ Call (CreateImageSlide title content q) # evs"
      "layout_calls evs = []"
      using create_image_slide_trace [of e title content q s1] ok by auto
    have "?goal s' (CreateImageSlide title content q) sl"
      using im cs g ok tr l1 unfolding u by (auto simp: routine_for_tag_def)
    then show ?thesis by blast
  next
    case o
    from create_content_slide_ok [of e t content False s]
    obtain sl s' where ok: "create_content_slide e title content False s = (Inr sl, s')"
      "title_text sl = t" "body_text sl = content_text content" "slides s' = slides s @ [sl]"
      unfolding \<open>title = JStr t\<close> by blast
    obtain evs where tr: "trace s' = trace s @ Call (CreateContentSlide title content False) # evs"
      "layout_calls evs = []"
      using create_content_slide_trace [of e title content False s] ok by auto
    have "?goal s' (CreateContentSlide title content False) sl"
      using o ok tr unfolding u by (auto simp: routine_for_tag_def)
    then show ?thesis by blast
  qed
  then obtain s' c sl where "?goal s' c sl" by blast
  with t show ?thesis unfolding title_def content_def tag_def by blast
qed

section \<open>Sample runs\<close>

lemma fresh_state_eq:
  "fresh_state = \<lparr>api_key = ''g-key'', pexel_key = ''p-key'', last_api_call = 0, min_delay = 30,
      api_call_count = 0, slides = [], ticks = 0, gen_calls = 0, downloads = 0,
      trace = [GenaiConfigure ''g-key'']\<rparr>"
  by (simp add: fresh_state_def init_def blank_state_def emit_def)

lemma sample_fence: "strip_code_fence (strip sample_reply) = Inr sample_json"
  by code_simp

lemma sample_loads: "loads_list sample_json = Inr sample_outline"
  by code_simp

lemma sample_raw: "loads_list (strip sample_reply) = Inl decode_error"
  by code_simp

lemma first_try:
  assumes "gemini e (gen_calls s) = Inr text" "0 < n"
  shows "fst (retry_api_call e (generate e p) n s) = Inr (Some (strip text))"
proof -
  have "generate e p (wait_for_rate_limit e s)
      = (Inr (strip text), emit [GenerateContent p]
           ((wait_for_rate_limit e s)\<lparr>gen_calls := gen_calls (wait_for_rate_limit e s) + 1\<rparr>))"
    using assms(1) by (simp add: generate_def Let_def wait_for_rate_limit_def emit_def)
  from retry_loop_Inr [of 0 n "generate e p" e s, OF assms(2) this]
  show ?thesis by (simp add: retry_api_call_def)
qed

lemma sample_outline_run:
  "fst (generate_content_outlines sample_env ''Robots'' 3 s) = sample_outline"
proof -
  have "gemini sample_env (gen_calls s) = Inr sample_reply"
    by (simp add: sample_env_def replying_def)
  from first_try [OF this, of 3 "OutlinePrompt ''Robots'' 3"]
  obtain s1 where r: "retry_api_call sample_env (generate sample_env (OutlinePrompt ''Robots'' 3)) 3 s
      = (Inr (Some (strip sample_reply)), s1)"
    by (cases "retry_api_call sample_env (generate sample_env (OutlinePrompt ''Robots'' 3)) 3 s") simp
  have b: "startswith ''['' sample_json" by (simp add: sample_json_def)
  have l: "json_loads sample_env sample_json = Inr sample_outline"
    by (simp add: sample_env_def replying_def sample_loads)
  show ?thesis
    unfolding generate_content_outlines_def Let_def
    by (simp add: r sample_fence b l)
qed

section \<open>Claims about the outline and the layout\<close>

text \<open>
  Claim C1, as amended.  When the outline step returns \<open>N\<close> well-formed records,
  \<open>generate_ppt\<close> makes exactly \<open>N\<close> layout calls, one per record and in order, each with
  the record's title; the routine is the one the record's \<open>slide_type\<close> names (title,
  content, image, or the fallback) for every record but the first, which always goes to
  the title routine.
\<close>

theorem layout_calls_follow_outline:
  assumes "fst (generate_content_outlines e topic n (announce n s)) = outline"
    and "list_all wf_record outline"
  shows "map call_info (new_calls s (snd (generate_ppt e topic n output_file author s)))
           = map (\<lambda>(i, r). planned i r) (enumerate 0 outline) \<and>
         length (new_calls s (snd (generate_ppt e topic n output_file author s))) = length outline"
proof -
  from assms(2) have tol: "list_all tolerable outline"
    by (induction outline) (auto dest: wf_tolerable)
  from assms(2) have "map (\<lambda>(i, r). planned i r) (enumerate k outline)
      = map (\<lambda>(i, r). step_info i r) (enumerate k outline)" for k
    by (induction outline arbitrary: k) (auto simp: wf_planned)
  with generate_ppt_calls [OF assms(1) tol, where output_file = output_file and author = author]
  have m: "map call_info (new_calls s (snd (generate_ppt e topic n output_file author s)))
           = map (\<lambda>(i, r). planned i r) (enumerate 0 outline)" by simp
  from m have "length (map call_info (new_calls s (snd (generate_ppt e topic n output_file author s))))
      = length (map (\<lambda>(i, r). planned i r) (enumerate 0 outline))" by (rule arg_cong)
  then have "length (new_calls s (snd (generate_ppt e topic n output_file author s))) = length outline"
    by simp
  with m show ?thesis by simp
qed

theorem layout_calls_follow_outline_witness:
  "map call_info (new_calls fresh_state
       (snd (generate_ppt sample_env ''Robots'' 3 ''presentation.pptx'' ''Pranab'' fresh_state)))
     = [Some (JStr ''Robots'', TitleRoutine), Some (JStr ''Uses'', ContentRoutine)] \<and>
   length (new_calls fresh_state
       (snd (generate_ppt sample_env ''Robots'' 3 ''presentation.pptx'' ''Pranab'' fresh_state))) = 2"
proof -
  have wf: "list_all wf_record sample_outline"
    by (simp add: sample_outline_def wf_record_def record_field_def)
  have pl: "map (\<lambda>(i, r). planned i r) (enumerate 0 sample_outline)
      = [Some (JStr ''Robots'', TitleRoutine), Some (JStr ''Uses'', ContentRoutine)]"
    by (simp add: sample_outline_def planned_def record_field_def routine_for_tag_def)
  have len: "length sample_outline = 2" by (simp add: sample_outline_def)
  from layout_calls_follow_outline [OF sample_outline_run wf, where s = fresh_state
        and output_file = "''presentation.pptx''" and author = "''Pranab''"]
  show ?thesis unfolding pl len .
qed

text \<open>
  The claim as stated fails: the model answers with two records, both tagged \<open>content\<close>,
  and the first is laid out by the title routine, not by the one its tag names.
\<close>

theorem routine_by_tag_counterexample:
  "fst (generate_content_outlines sample_env ''Robots'' 3 (announce 3 fresh_state)) = sample_outline \<and>
   map stated sample_outline
     = [Some (JStr ''Robots'', ContentRoutine), Some (JStr ''Uses'', ContentRoutine)] \<and>
   map call_info (new_calls fresh_state
       (snd (generate_ppt sample_env ''Robots'' 3 ''presentation.pptx'' ''Pranab'' fresh_state)))
     = [Some (JStr ''Robots'', TitleRoutine), Some (JStr ''Uses'', ContentRoutine)]"
proof -
  have tol: "list_all tolerable sample_outline"
    by (simp add: sample_outline_def tolerable_def joinable_def)
  have st: "map stated sample_outline
     = [Some (JStr ''Robots'', ContentRoutine), Some (JStr ''Uses'', ContentRoutine)]"
    by (simp add: sample_outline_def stated_def record_field_def routine_for_tag_def)
  have si: "map (\<lambda>(j, r). step_info j r) (enumerate 0 sample_outline)
      = [Some (JStr ''Robots'', TitleRoutine), Some (JStr ''Uses'', ContentRoutine)]"
    by (simp add: sample_outline_def step_info_def dict_get_def routine_for_tag_def)
  show ?thesis
    using generate_ppt_calls [OF sample_outline_run tol, where s = fresh_state
        and output_file = "''presentation.pptx''" and author = "''Pranab''"]
    by (simp add: st si sample_outline_run)
qed

text \<open>
  Claim C9.  Whatever the outline, if its first record is an object then the first layout
  call of \<open>generate_ppt\<close> is the title routine, with the record's title (or \<open>Slide 1\<close>) and
  the subtitle \<open>Created by {author}\<close>; the record's \<open>slide_type\<close> plays no part.
\<close>

theorem first_record_is_title_slide:
  assumes "fst (generate_content_outlines e topic n (announce n s)) = JObj d # rest"
  shows "\<exists>more. new_calls s (snd (generate_ppt e topic n output_file author s))
           = CreateTitleSlide (dict_get d ''title'' (JStr ''Slide 1'')) (''Created by '' @ author) # more"
  using assms by (rule generate_ppt_first_call)

theorem first_record_is_title_slide_witness:
  "\<exists>more. new_calls fresh_state
       (snd (generate_ppt sample_env ''Robots'' 3 ''presentation.pptx'' ''Pranab'' fresh_state))
     = CreateTitleSlide (JStr ''Robots'') ''Created by Pranab'' # more"
proof -
  have "fst (generate_content_outlines sample_env ''Robots'' 3 (announce 3 fresh_state))
      = JObj [(''title'', JStr ''Robots''), (''content'', JStr ''Intro''), (''slide_type'', JStr ''content'')]
        # tl sample_outline"
    by (simp add: sample_outline_run) (simp add: sample_outline_def)
  from first_record_is_title_slide [OF this, where output_file = "''presentation.pptx''"
      and author = "''Pranab''"]
  show ?thesis by (simp add: dict_get_def)
qed

text \<open>
  Claim C10.  On an object whose \<open>title\<close>, if present, is a string and whose \<open>content\<close>,
  if present, is not a list with a non-string item, the body of the loop of \<open>generate_ppt\<close>
  succeeds, makes exactly one layout call and adds exactly one slide.  The call and the
  slide carry the record's title, or \<open>Slide {i+1}\<close> when the key is missing; the routine
  is the one the record's \<open>slide_type\<close> names, or the content routine when the key is
  missing (the title routine at index 0); a content or image call carries the record's
  content, or the empty string when the key is missing.  The loop succeeds on every
  outline of such records, with these calls in order.  A record without a key is treated
  exactly as the record with the default added.
\<close>

theorem missing_keys_take_defaults:
  "(list_all tolerable outline \<longrightarrow>
      (\<exists>s'. layout_loop e author i outline s = (Inr (), s') \<and>
            map call_info (new_calls s s') = map (\<lambda>(j, r). step_info j r) (enumerate i outline))) \<and>
   (tolerable (JObj d) \<longrightarrow>
      (\<exists>s' c sl.
         slide_step e author i (JObj d) s = (Inr (), s') \<and>
         new_calls s s' = [c] \<and>
         slides s' = slides s @ [sl] \<and>
         title_of_call c = dict_get d ''title'' (JStr (''Slide '' @ str_of_nat (i + 1))) \<and>
         JStr (title_text sl) = dict_get d ''title'' (JStr (''Slide '' @ str_of_nat (i + 1))) \<and>
         routine_of_call c
           = (if i = 0 then TitleRoutine
              else routine_for_tag (dict_get d ''slide_type'' (JStr ''content''))) \<and>
         (routine_of_call c \<noteq> TitleRoutine \<longrightarrow>
            content_of_call c = Some (dict_get d ''content'' (JStr [])) \<and>
            body_text sl = content_text (dict_get d ''content'' (JStr []))) \<and>
         (map_of d ''title'' = None \<longrightarrow>
            title_of_call c = JStr (''Slide '' @ str_of_nat (i + 1)) \<and>
            title_text sl = ''Slide '' @ str_of_nat (i + 1)) \<and>
         (map_of d ''content'' = None \<and> routine_of_call c \<noteq> TitleRoutine \<longrightarrow>
            content_of_call c = Some (JStr []) \<and> body_text sl = []) \<and>
         (map_of d ''slide_type'' = None \<and> i \<noteq> 0 \<longrightarrow>
            routine_of_call c = ContentRoutine))) \<and>
   (map_of d ''title'' = None \<longrightarrow>
      slide_step e author i (JObj d) s
        = slide_step e author i (JObj ((''title'', JStr (''Slide '' @ str_of_nat (i + 1))) # d)) s) \<and>
   (map_of d ''content'' = None \<longrightarrow>
      slide_step e author i (JObj d) s = slide_step e author i (JObj ((''content'', JStr []) # d)) s) \<and>
   (map_of d ''slide_type'' = None \<longrightarrow>
      slide_step e author i (JObj d) s
        = slide_step e author i (JObj ((''slide_type'', JStr ''content'') # d)) s)"
proof (intro conjI impI)
  assume "list_all tolerable outline"
  from layout_loop_ok [OF this, of e author i s]
  obtain s' cs where lp: "layout_loop e author i outline s = (Inr (), s')"
    "layout_calls (trace s') = layout_calls (trace s) @ cs"
    "map call_info cs = map (\<lambda>(j, r). step_info j r) (enumerate i outline)"
    by blast
  from new_calls_append [OF lp(2)] lp
  show "\<exists>s'. layout_loop e author i outline s = (Inr (), s') \<and>
            map call_info (new_calls s s') = map (\<lambda>(j, r). step_info j r) (enumerate i outline)"
    by auto
next
  assume "tolerable (JObj d)"
  from slide_step_call [OF this, of e author i s]
  obtain s' c sl t where r:
      "slide_step e author i (JObj d) s = (Inr (), s')"
      "layout_calls (trace s') = layout_calls (trace s) @ [c]"
      "title_of_call c = dict_get d ''title'' (JStr (''Slide '' @ str_of_nat (i + 1)))"
      "routine_of_call c
        = (if i = 0 then TitleRoutine
           else routine_for_tag (dict_get d ''slide_type'' (JStr ''content'')))"
      "routine_of_call c = TitleRoutine \<or>
         content_of_call c = Some (dict_get d ''content'' (JStr []))"
      "slides s' = slides s @ [sl]"
      "dict_get d ''title'' (JStr (''Slide '' @ str_of_nat (i + 1))) = JStr t"
      "title_text sl = t"
      "body_text sl
        = (if routine_of_call c = TitleRoutine then ''Created by '' @ author
           else content_text (dict_get d ''content'' (JStr [])))"
    by blast
  have nc: "new_calls s s' = [c]" by (rule new_calls_append [OF r(2)])
  have e0: "content_text (JStr []) = []" by (simp add: content_text_def py_str_def)
  have d1: "map_of d ''title'' = None \<Longrightarrow>
      dict_get d ''title'' (JStr (''Slide '' @ str_of_nat (i + 1))) = JStr (''Slide '' @ str_of_nat (i + 1))"
    by (simp add: dict_get_def)
  have d2: "map_of d ''content'' = None \<Longrightarrow> dict_get d ''content'' (JStr []) = JStr []"
    by (simp add: dict_get_def)
  have d3: "map_of d ''slide_type'' = None \<Longrightarrow>
      routine_for_tag (dict_get d ''slide_type'' (JStr ''content'')) = ContentRoutine"
    by (simp add: dict_get_def routine_for_tag_def)
  have a1: "JStr (title_text sl) = dict_get d ''title'' (JStr (''Slide '' @ str_of_nat (i + 1)))"
    using r(7,8) by simp
  have a2: "routine_of_call c \<noteq> TitleRoutine \<longrightarrow>
            content_of_call c = Some (dict_get d ''content'' (JStr [])) \<and>
            body_text sl = content_text (dict_get d ''content'' (JStr []))"
    using r(5,9) by auto
  have a3: "map_of d ''title'' = None \<longrightarrow>
            title_of_call c = JStr (''Slide '' @ str_of_nat (i + 1)) \<and>
            title_text sl = ''Slide '' @ str_of_nat (i + 1)"
    using r(3,7,8) d1 by auto
  have a4: "map_of d ''content'' = None \<and> routine_of_call c \<noteq> TitleRoutine \<longrightarrow>
            content_of_call c = Some (JStr []) \<and> body_text sl = []"
    using a2 d2 e0 by auto
  have a5: "map_of d ''slide_type'' = None \<and> i \<noteq> 0 \<longrightarrow> routine_of_call c = ContentRoutine"
    using r(4) d3 by auto
  from r(1) nc r(6) r(3) a1 r(4) a2 a3 a4 a5
  show "\<exists>s' c sl.
         slide_step e author i (JObj d) s = (Inr (), s') \<and>
         new_calls s s' = [c] \<and>
         slides s' = slides s @ [sl] \<and>
         title_of_call c = dict_get d ''title'' (JStr (''Slide '' @ str_of_nat (i + 1))) \<and>
         JStr (title_text sl) = dict_get d ''title'' (JStr (''Slide '' @ str_of_nat (i + 1))) \<and>
         routine_of_call c
           = (if i = 0 then TitleRoutine
              else routine_for_tag (dict_get d ''slide_type'' (JStr ''content''))) \<and>
         (routine_of_call c \<noteq> TitleRoutine \<longrightarrow>
            content_of_call c = Some (dict_get d ''content'' (JStr [])) \<and>
            body_text sl = content_text (dict_get d ''content'' (JStr []))) \<and>
         (map_of d ''title'' = None \<longrightarrow>
            title_of_call c = JStr (''Slide '' @ str_of_nat (i + 1)) \<and>
            title_text sl = ''Slide '' @ str_of_nat (i + 1)) \<and>
         (map_of d ''content'' = None \<and> routine_of_call c \<noteq> TitleRoutine \<longrightarrow>
            content_of_call c = Some (JStr []) \<and> body_text sl = []) \<and>
         (map_of d ''slide_type'' = None \<and> i \<noteq> 0 \<longrightarrow>
            routine_of_call c = ContentRoutine)"
    by (intro exI [of _ s'] exI [of _ c] exI [of _ sl] conjI)
next
  assume "map_of d ''title'' = None"
  then show "slide_step e author i (JObj d) s
        = slide_step e author i (JObj ((''title'', JStr (''Slide '' @ str_of_nat (i + 1))) # d)) s"
    by (simp add: slide_step_def dict_get_def)
next
  assume "map_of d ''content'' = None"
  then show "slide_step e author i (JObj d) s
        = slide_step e author i (JObj ((''content'', JStr []) # d)) s"
    by (simp add: slide_step_def dict_get_def)
next
  assume "map_of d ''slide_type'' = None"
  then show "slide_step e author i (JObj d) s
        = slide_step e author i (JObj ((''slide_type'', JStr ''content'') # d)) s"
    by (simp add: slide_step_def dict_get_def)
qed

theorem missing_keys_take_defaults_witness:
  "(\<exists>s'. layout_loop sample_env ''Pranab'' 0 [JObj [], JObj []] fresh_state = (Inr (), s') \<and>
         map call_info (new_calls fresh_state s')
           = [Some (JStr ''Slide 1'', TitleRoutine), Some (JStr ''Slide 2'', ContentRoutine)]) \<and>
   (\<exists>s' sl. slide_step sample_env ''Pranab'' 1 (JObj []) fresh_state = (Inr (), s') \<and>
         new_calls fresh_state s' = [CreateContentSlide (JStr ''Slide 2'') (JStr []) True] \<and>
         slides s' = [sl] \<and> title_text sl = ''Slide 2'' \<and> body_text sl = []) \<and>
   slide_step sample_env ''Pranab'' 1 (JObj []) fresh_state
     = slide_step sample_env ''Pranab'' 1 (JObj [(''title'', JStr ''Slide 2'')]) fresh_state \<and>
   slide_step sample_env ''Pranab'' 1 (JObj []) fresh_state
     = slide_step sample_env ''Pranab'' 1 (JObj [(''content'', JStr [])]) fresh_state \<and>
   slide_step sample_env ''Pranab'' 1 (JObj []) fresh_state
     = slide_step sample_env ''Pranab'' 1 (JObj [(''slide_type'', JStr ''content'')]) fresh_state"
proof -
  let ?ol = "[JObj [], JObj []]"
  have tol: "list_all tolerable ?ol" "tolerable (JObj [])"
    by (simp_all add: tolerable_def)
  have m: "map_of ([] :: (string \<times> json) list) ''title'' = None"
    "map_of ([] :: (string \<times> json) list) ''content'' = None"
    "map_of ([] :: (string \<times> json) list) ''slide_type'' = None" by simp_all
  have n1: "''Slide '' @ str_of_nat (0 + 1) = ''Slide 1''" by code_simp
  have n2: "''Slide '' @ str_of_nat (1 + 1) = ''Slide 2''" by code_simp
  have n2': "str_of_nat (Suc (Suc 0)) = ''2''" by code_simp
  have si: "map (\<lambda>(j, r). step_info j r) (enumerate 0 ?ol)
      = [Some (JStr ''Slide 1'', TitleRoutine), Some (JStr ''Slide 2'', ContentRoutine)]"
    by (simp add: step_info_def dict_get_def routine_for_tag_def str_of_nat_1 n2')
  from missing_keys_take_defaults [of ?ol sample_env "''Pranab''" 0 fresh_state "[]"] tol
  have a: "\<exists>s'. layout_loop sample_env ''Pranab'' 0 ?ol fresh_state = (Inr (), s') \<and>
         map call_info (new_calls fresh_state s')
           = [Some (JStr ''Slide 1'', TitleRoutine), Some (JStr ''Slide 2'', ContentRoutine)]"
    unfolding si by blast
  note inst = missing_keys_take_defaults [of "[]" sample_env "''Pranab''" 1 fresh_state "[]"]
  note step = inst [THEN conjunct2, THEN conjunct1, rule_format, OF tol(2)]
  from step obtain s' c sl where r:
    "slide_step sample_env ''Pranab'' 1 (JObj []) fresh_state = (Inr (), s')"
    "new_calls fresh_state s' = [c]"
    "slides s' = slides fresh_state @ [sl]"
    and r2: "map_of ([] :: (string \<times> json) list) ''title'' = None \<longrightarrow>
            title_of_call c = JStr (''Slide '' @ str_of_nat (1 + 1)) \<and>
            title_text sl = ''Slide '' @ str_of_nat (1 + 1)"
    "map_of ([] :: (string \<times> json) list) ''content'' = None \<and> routine_of_call c \<noteq> TitleRoutine \<longrightarrow>
            content_of_call c = Some (JStr []) \<and> body_text sl = []"
    "map_of ([] :: (string \<times> json) list) ''slide_type'' = None \<and> (1::nat) \<noteq> 0 \<longrightarrow>
            routine_of_call c = ContentRoutine"
    by (elim exE conjE) (rule that; assumption)
  from r2 m have f: "title_of_call c = JStr ''Slide 2''" "title_text sl = ''Slide 2''"
    "routine_of_call c = ContentRoutine" "content_of_call c = Some (JStr [])" "body_text sl = []"
    unfolding n2 by auto
  from f(1,3,4) have c: "c = CreateContentSlide (JStr ''Slide 2'') (JStr []) True"
    by (cases c) (auto split: if_splits)
  have sf: "slides fresh_state = []" by (simp add: fresh_state_eq)
  from r(1,2,3) f c sf
  have b0: "\<exists>s' sl. slide_step sample_env ''Pranab'' 1 (JObj []) fresh_state = (Inr (), s') \<and>
         new_calls fresh_state s' = [CreateContentSlide (JStr ''Slide 2'') (JStr []) True] \<and>
         slides s' = [sl] \<and> title_text sl = ''Slide 2'' \<and> body_text sl = []"
    by auto
  from inst m
  have b: "slide_step sample_env ''Pranab'' 1 (JObj []) fresh_state
      = slide_step sample_env ''Pranab'' 1 (JObj [(''title'', JStr (''Slide '' @ str_of_nat (1 + 1)))])
          fresh_state"
    by blast
  from inst m
  have c': "slide_step sample_env ''Pranab'' 1 (JObj []) fresh_state
      = slide_step sample_env ''Pranab'' 1 (JObj [(''content'', JStr [])]) fresh_state"
    by blast
  from inst m
  have d: "slide_step sample_env ''Pranab'' 1 (JObj []) fresh_state
      = slide_step sample_env ''Pranab'' 1 (JObj [(''slide_type'', JStr ''content'')]) fresh_state"
    by blast
  from b have b': "slide_step sample_env ''Pranab'' 1 (JObj []) fresh_state
      = slide_step sample_env ''Pranab'' 1 (JObj [(''title'', JStr ''Slide 2'')]) fresh_state"
    unfolding n2 .
  from a b0 b' c' d show ?thesis by blast
qed

text \<open>
  Claim C5.  When the image of a content slide does not arrive (the search or the download
  raises, no photo is found, the file is missing, or adding the picture raises), the
  routine still returns normally, and the slide it added has the title and the content
  text it was given and no picture.
\<close>

theorem image_failure_keeps_slide:
  assumes "image_fetch_fails e (downloads s)"
  shows "\<exists>s'. create_content_slide e (JStr t) content True s
             = (Inr \<lparr>layout = 1, title_text = t, body_text = content_text content,
                     has_picture = False\<rparr>, s') \<and>
           slides s' = slides s @ [\<lparr>layout = 1, title_text = t, body_text = content_text content,
                                   has_picture = False\<rparr>]"
proof -
  from create_content_slide_ok [of e t content True s] assms
  obtain sl s' where r: "create_content_slide e (JStr t) content True s = (Inr sl, s')"
    "layout sl = 1" "title_text sl = t" "body_text sl = content_text content"
    "slides s' = slides s @ [sl]" "\<not> has_picture sl"
    by blast
  then have "sl = \<lparr>layout = 1, title_text = t, body_text = content_text content,
                     has_picture = False\<rparr>"
    by (cases sl) simp
  with r show ?thesis by simp
qed

theorem image_failure_keeps_slide_witness:
  "\<exists>s'. create_content_slide no_photo_env (JStr ''Uses'') (JStr ''Benefits'') True fresh_state
          = (Inr \<lparr>layout = 1, title_text = ''Uses'', body_text = ''Benefits'', has_picture = False\<rparr>, s') \<and>
        slides s' = [\<lparr>layout = 1, title_text = ''Uses'', body_text = ''Benefits'', has_picture = False\<rparr>]"
proof -
  have f: "image_fetch_fails no_photo_env (downloads fresh_state)"
    by (simp add: image_fetch_fails_def no_photo_env_def)
  have c: "content_text (JStr ''Benefits'') = ''Benefits''"
    by (simp add: content_text_def py_str_def)
  show ?thesis
    using image_failure_keeps_slide [OF f, of "''Uses''" "JStr ''Benefits''"]
    by (simp add: c fresh_state_eq)
qed

text \<open>
  Claim C2, as amended.  When \<open>_retry_api_call\<close> returns \<open>None\<close>, or returns a text that,
  after the code has cut the Markdown fences away, does not start with a bracket or does
  not decode, \<open>generate_content_outlines\<close> returns the fallback outline: six records
  (a title record, four content records, a conclusion), the first with the topic for its
  title.
\<close>

theorem unusable_reply_gives_fallback:
  assumes "fst (retry_api_call e (generate e (OutlinePrompt topic n)) 3 s) = Inr r"
    and "unusable e r"
  shows "fst (generate_content_outlines e topic n s) = get_fallback_content topic \<and>
         length (get_fallback_content topic) = 6 \<and>
         map (record_field ''slide_type'') (get_fallback_content topic)
           = [Some (JStr ''title''), Some (JStr ''content''), Some (JStr ''content''),
              Some (JStr ''content''), Some (JStr ''content''), Some (JStr ''conclusion'')] \<and>
         record_field ''title'' (hd (get_fallback_content topic)) = Some (JStr topic)"
proof -
  obtain s1 where rr: "retry_api_call e (generate e (OutlinePrompt topic n)) 3 s = (Inr r, s1)"
    using assms(1) by (cases "retry_api_call e (generate e (OutlinePrompt topic n)) 3 s") simp
  have "fst (generate_content_outlines e topic n s) = get_fallback_content topic"
    using assms(2) unfolding generate_content_outlines_def Let_def unusable_def
    by (auto simp: rr split: option.splits sum.splits)
  then show ?thesis
    by (simp add: get_fallback_content_def record_field_def)
qed

theorem unusable_reply_gives_fallback_witness:
  "fst (generate_content_outlines prose_env ''Robots'' 3 fresh_state) = get_fallback_content ''Robots'' \<and>
   length (get_fallback_content ''Robots'') = 6 \<and>
   record_field ''title'' (hd (get_fallback_content ''Robots'')) = Some (JStr ''Robots'')"
proof -
  have "gemini prose_env (gen_calls fresh_state) = Inr ''Here is the outline you asked for.''"
    by (simp add: prose_env_def replying_def)
  from first_try [OF this, of 3 "OutlinePrompt ''Robots'' 3"]
  have r: "fst (retry_api_call prose_env (generate prose_env (OutlinePrompt ''Robots'' 3)) 3 fresh_state)
      = Inr (Some (strip ''Here is the outline you asked for.''))" by simp
  have u: "unusable prose_env (Some (strip ''Here is the outline you asked for.''))"
    by code_simp
  from unusable_reply_gives_fallback [OF r u] show ?thesis by simp
qed

text \<open>
  The claim as stated fails: the model's text is a fenced array, which as it stands does
  not decode as JSON, and the outline returned is the two records inside the fence, not
  the fallback.
\<close>

theorem fenced_reply_counterexample:
  "gemini sample_env 0 = Inr sample_reply \<and>
   json_loads sample_env (strip sample_reply) = Inl decode_error \<and>
   fst (generate_content_outlines sample_env ''Robots'' 3 fresh_state) = sample_outline \<and>
   length sample_outline = 2 \<and>
   length (get_fallback_content ''Robots'') = 6"
  by (simp add: sample_outline_run)
     (simp add: sample_env_def replying_def sample_raw sample_outline_def get_fallback_content_def)

section \<open>Claims about the form\<close>

text \<open>
  Claim C6.  When the button is pressed with an empty topic or with either key missing,
  \<open>main\<close> shows one validation error and does nothing else: no request is sent and no
  generator is made (the state is the one before, with that message added).
\<close>

theorem missing_input_blocks_generation:
  assumes "button f"
    and "form_topic f = [] \<or> gemini_api_key f = [] \<or> pexel_api_key f = []"
  shows "main e f s =
           emit [StError (if form_topic f = [] then ''Please enter a presentation topic!''
                          else if gemini_api_key f = []
                            then ''Please provide your Gemini API key in the sidebar!''
                          else ''Please provide your Pexels API key in the sidebar!'')] s"
  using assms unfolding main_def Let_def by auto

theorem missing_input_blocks_generation_witness:
  "main sample_env (sample_form\<lparr>pexel_api_key := []\<rparr>) blank_state
     = blank_state\<lparr>trace := [StError ''Please provide your Pexels API key in the sidebar!'']\<rparr>"
proof -
  have b: "button (sample_form\<lparr>pexel_api_key := []\<rparr>)" by (simp add: sample_form_def)
  have k: "form_topic (sample_form\<lparr>pexel_api_key := []\<rparr>) = [] \<or>
      gemini_api_key (sample_form\<lparr>pexel_api_key := []\<rparr>) = [] \<or>
      pexel_api_key (sample_form\<lparr>pexel_api_key := []\<rparr>) = []" by simp
  show ?thesis
    using missing_input_blocks_generation [OF b k, of sample_env blank_state]
    by (simp add: sample_form_def emit_def blank_state_def)
qed

section \<open>The sample run of the application\<close>

lemma find_benefits:
  "find (\<lambda>kv. py_in (fst kv) (lower ''Benefits'')) keyword_map = Some (''benefit'', ''growth success chart'')"
  by code_simp

lemma gid_benefits:
  "generative_image_description e ''Benefits'' s
     = (''growth success chart'', emit [StInfo ''Using cached image description: growth success chart''] s)"
  by (simp add: generative_image_description_def find_benefits Let_def)

lemma announce_3:
  "announce 3 s = emit [StInfo ''Total slides: 3'',
      StInfo ''Estimated time: ~1 minutes (due to rate limits)''] s"
proof -
  have "str_of_int 3 = ''3''" "str_of_int (3 * 30 div 60) = ''1''" by code_simp+
  then show ?thesis by (simp add: announce_def)
qed

lemma sample_outlines_state:
  "generate_content_outlines sample_env ''Robots'' 3 (announce 3 fresh_state)
     = (sample_outline,
        fresh_state\<lparr>ticks := 2, last_api_call := 1700000060, api_call_count := 1, gen_calls := 1,
          trace := [GenaiConfigure ''g-key'', StInfo ''Total slides: 3'',
            StInfo ''Estimated time: ~1 minutes (due to rate limits)'',
            GenerateContent (OutlinePrompt ''Robots'' 3)]\<rparr>)"
proof -
  let ?s0 = "announce 3 fresh_state"
  let ?p = "OutlinePrompt ''Robots'' 3"
  have w: "wait_for_rate_limit sample_env ?s0
      = ?s0\<lparr>ticks := 2, last_api_call := 1700000060, api_call_count := 1\<rparr>"
    by (simp add: announce_3 wait_for_rate_limit_def sample_env_def replying_def fresh_state_eq
        emit_def Let_def)
  have g: "generate sample_env ?p (wait_for_rate_limit sample_env ?s0)
      = (Inr (strip sample_reply),
         emit [GenerateContent ?p]
           (?s0\<lparr>ticks := 2, last_api_call := 1700000060, api_call_count := 1, gen_calls := 1\<rparr>))"
    unfolding w
    by (simp add: generate_def sample_env_def replying_def Let_def announce_3 fresh_state_eq emit_def)
  have r: "retry_api_call sample_env (generate sample_env ?p) 3 ?s0
      = (Inr (Some (strip sample_reply)),
         emit [GenerateContent ?p]
           (?s0\<lparr>ticks := 2, last_api_call := 1700000060, api_call_count := 1, gen_calls := 1\<rparr>))"
    unfolding retry_api_call_def
    by (rule retry_loop_Inr [of 0 3 "generate sample_env ?p" sample_env ?s0, OF _ g]) simp
  have b: "startswith ''['' sample_json" by (simp add: sample_json_def)
  have l: "json_loads sample_env sample_json = Inr sample_outline"
    by (simp add: sample_env_def replying_def sample_loads)
  show ?thesis
    unfolding generate_content_outlines_def Let_def
    by (simp add: r sample_fence b l) (simp add: announce_3 fresh_state_eq emit_def)
qed

lemma sample_layout:
  "layout_loop sample_env ''Pranab'' 0 sample_outline
     (fresh_state\<lparr>ticks := 2, last_api_call := 1700000060, api_call_count := 1, gen_calls := 1,
          trace := [GenaiConfigure ''g-key'', StInfo ''Total slides: 3'',
            StInfo ''Estimated time: ~1 minutes (due to rate limits)'',
            GenerateContent (OutlinePrompt ''Robots'' 3)]\<rparr>)
   = (Inr (), sample_final\<lparr>trace := take 11 (trace sample_final)\<rparr>)"
proof -
  have c: "content_text (JStr ''Benefits'') = ''Benefits''"
    by (simp add: content_text_def py_str_def)
  show ?thesis
    by (simp add: sample_outline_def slide_step_def dict_get_def Let_def create_title_slide_def
        create_content_slide_def set_text_def new_slide_def c gid_benefits download_images_def
        place_picture_def sample_env_def replying_def fresh_state_eq emit_def sample_final_def)
qed

lemma sample_main: "main sample_env sample_form blank_state = sample_final"
proof -
  have i: "init ''g-key'' ''p-key'' blank_state = (Inr (), fresh_state)"
    by (simp add: fresh_state_def init_def)
  have g: "generate_ppt sample_env ''Robots'' 3 ''presentation.pptx'' ''Pranab'' fresh_state
      = (Inr ''presentation.pptx'',
         emit [Save ''presentation.pptx''] (sample_final\<lparr>trace := take 11 (trace sample_final)\<rparr>))"
  proof -
    have sv: "save_file sample_env ''presentation.pptx'' = None"
      by (simp add: sample_env_def replying_def)
    show ?thesis
      unfolding generate_ppt_def Let_def sample_outlines_state prod.case sample_layout sum.case sv
        option.case ..
  qed
  have op: "open_file sample_env ''presentation.pptx'' = None"
    by (simp add: sample_env_def replying_def)
  have f: "button sample_form" "form_topic sample_form = ''Robots''"
    "gemini_api_key sample_form = ''g-key''" "pexel_api_key sample_form = ''p-key''"
    "form_num_slides sample_form = 3" "output_filename sample_form = ''presentation.pptx''"
    "author_name sample_form = ''Pranab''"
    by (simp_all add: sample_form_def)
  have "main sample_env sample_form blank_state
      = emit [DownloadButton ''presentation.pptx'', Balloons]
          (emit [OpenFile ''presentation.pptx'']
            (emit [Save ''presentation.pptx'']
              (sample_final\<lparr>trace := take 11 (trace sample_final)\<rparr>)))"
    unfolding main_def Let_def by (simp add: f i g op)
  also have "\<dots> = sample_final"
    by (simp add: emit_def sample_final_def)
  finally show ?thesis .
qed

lemma main_ignores_toggle: "main e (f\<lparr>include_images := b\<rparr>) s = main e f s"
  by (simp add: main_def Let_def split: prod.splits sum.splits option.splits)

text \<open>
  Claim C8 fails on the code.  \<open>main\<close> reads the "Include Images" box and never passes
  it on; \<open>generate_ppt\<close> asks for an image on every record tagged \<open>content\<close> after the
  first.  On the sample form the box is off, and the run still searches for a photo, adds
  it to the content slide, and is the same run as with the box on.
\<close>

theorem include_images_is_ignored:
  "include_images sample_form = False \<and>
   trace (main sample_env sample_form blank_state)
     = [GenaiConfigure ''g-key'', StInfo ''Total slides: 3'',
        StInfo ''Estimated time: ~1 minutes (due to rate limits)'',
        GenerateContent (OutlinePrompt ''Robots'' 3),
        Call (CreateTitleSlide (JStr ''Robots'') ''Created by Pranab''),
        Call (CreateContentSlide (JStr ''Uses'') (JStr ''Benefits'') True),
        StInfo ''Using cached image description: growth success chart'',
        PexelsSearch ''p-key'' ''growth success chart'',
        ImageGet ''https://images.pexels.com/photos/1/a.jpeg'',
        AddPicture ''temp_image.jpg'', OsRemove ''temp_image.jpg'',
        Save ''presentation.pptx'', OpenFile ''presentation.pptx'',
        DownloadButton ''presentation.pptx'', Balloons] \<and>
   map has_picture (slides (main sample_env sample_form blank_state)) = [False, True] \<and>
   main sample_env (sample_form\<lparr>include_images := True\<rparr>) blank_state
     = main sample_env sample_form blank_state"
  by (simp add: main_ignores_toggle sample_main) (simp add: sample_final_def sample_form_def)

end
